theory Spec2Isabelle
  imports Main "HOL-Library.Multiset"
begin

section \<open>Python text primitives used by the scripts\<close>

text \<open>
  The scripts work on Python \<open>str\<close> values. A string is modelled as a list of
  characters, each standing for the code point of the same number (0 to 255), so the
  character classes below are those of Python for that range: \<open>str.isspace\<close>,
  the line boundaries of \<open>str.splitlines\<close>, the decimal digits of \<open>\d\<close> and
  \<open>int\<close>, and the letters \<open>str.lower\<close> changes.
\<close>

datatype error = ValueError | IndexError | KeyError

definition py_isspace :: "char \<Rightarrow> bool" where
  "py_isspace c \<longleftrightarrow>
     c \<in> set [CHR 0x09, CHR 0x0A, CHR 0x0B, CHR 0x0C, CHR 0x0D, CHR 0x1C, CHR 0x1D,
              CHR 0x1E, CHR 0x1F, CHR '' '', CHR 0x85, CHR 0xA0]"

definition py_isdigit :: "char \<Rightarrow> bool" where
  "py_isdigit c \<longleftrightarrow> c \<in> set ''0123456789''"

definition py_linebreak :: "char \<Rightarrow> bool" where
  "py_linebreak c \<longleftrightarrow>
     c \<in> set [CHR 0x0A, CHR 0x0B, CHR 0x0C, CHR 0x0D, CHR 0x1C, CHR 0x1D, CHR 0x1E, CHR 0x85]"

definition lower_char :: "char \<Rightarrow> char" where
  "lower_char c =
     (let n = (of_char c :: nat)
      in if (65 \<le> n \<and> n \<le> 90) \<or> (192 \<le> n \<and> n \<le> 222 \<and> n \<noteq> 215)
         then char_of (n + 32) else c)"

definition py_lower :: "string \<Rightarrow> string" where
  "py_lower s = map lower_char s"

definition py_strip :: "string \<Rightarrow> string" where
  "py_strip s = rev (dropWhile py_isspace (rev (dropWhile py_isspace s)))"

definition py_startswith :: "string \<Rightarrow> string \<Rightarrow> bool" where
  "py_startswith s p \<longleftrightarrow> take (length p) s = p"

text \<open>\<open>s.split()\<close>: the maximal runs of non-whitespace characters, in order.\<close>

fun py_split_acc :: "string \<Rightarrow> string \<Rightarrow> string list" where
  "py_split_acc cur [] = (if cur = [] then [] else [cur])"
| "py_split_acc cur (c # cs) =
     (if py_isspace c
      then (if cur = [] then py_split_acc [] cs else cur # py_split_acc [] cs)
      else py_split_acc (cur @ [c]) cs)"

definition py_split :: "string \<Rightarrow> string list" where
  "py_split s = py_split_acc [] s"

text \<open>\<open>s.split(',')\<close>: the fields between separators; never an empty list.\<close>

fun py_split_on_acc :: "char \<Rightarrow> string \<Rightarrow> string \<Rightarrow> string list" where
  "py_split_on_acc sep cur [] = [cur]"
| "py_split_on_acc sep cur (c # cs) =
     (if c = sep then cur # py_split_on_acc sep [] cs
      else py_split_on_acc sep (cur @ [c]) cs)"

definition py_split_on :: "char \<Rightarrow> string \<Rightarrow> string list" where
  "py_split_on sep s = py_split_on_acc sep [] s"

text \<open>
  \<open>s.splitlines()\<close>: a carriage return followed by a line feed is one boundary, and
  a boundary at the very end opens no further (empty) line.
\<close>

fun py_splitlines_acc :: "string \<Rightarrow> string \<Rightarrow> string list" where
  "py_splitlines_acc cur [] = (if cur = [] then [] else [cur])"
| "py_splitlines_acc cur (c # cs) =
     (if c = CHR 0x0D then
        (case cs of
           d # ds \<Rightarrow> if d = CHR 0x0A then cur # py_splitlines_acc [] ds
                     else cur # py_splitlines_acc [] cs
         | [] \<Rightarrow> cur # py_splitlines_acc [] cs)
      else if py_linebreak c then cur # py_splitlines_acc [] cs
      else py_splitlines_acc (cur @ [c]) cs)"

definition py_splitlines :: "string \<Rightarrow> string list" where
  "py_splitlines s = py_splitlines_acc [] s"

text \<open>
  \<open>int(s)\<close> for a string. The whitespace around the text is dropped: for \<open>int\<close>
  that is the ASCII blanks and, beyond ASCII, the characters of \<open>str.isspace\<close>, so
  the separators 0x1C to 0x1F are not dropped. Then one sign is allowed, then decimal
  digits, where single underscores may stand between digits. Anything else raises
  \<open>ValueError\<close>, and so does a text of more than \<open>int_max_str_digits\<close> digits:
  the interpreter's limit on the conversion, 4300 unless a program changes it, which the
  scripts never do. Below that limit the result is an unbounded integer.
\<close>

definition int_isspace :: "char \<Rightarrow> bool" where
  "int_isspace c \<longleftrightarrow>
     c \<in> set [CHR 0x09, CHR 0x0A, CHR 0x0B, CHR 0x0C, CHR 0x0D, CHR '' '', CHR 0x85, CHR 0xA0]"

definition int_strip :: "string \<Rightarrow> string" where
  "int_strip s = rev (dropWhile int_isspace (rev (dropWhile int_isspace s)))"

definition int_max_str_digits :: nat where
  "int_max_str_digits = 4300"

definition digit_val :: "char \<Rightarrow> int" where
  "digit_val c = int (of_char c) - 48"

fun digits_value :: "int \<Rightarrow> string \<Rightarrow> int option" where
  "digits_value acc [] = Some acc"
| "digits_value acc (c # cs) =
     (if py_isdigit c then digits_value (acc * 10 + digit_val c) cs
      else if c = CHR ''_'' then
        (case cs of
           [] \<Rightarrow> None
         | d # ds \<Rightarrow> if py_isdigit d then digits_value (acc * 10 + digit_val d) ds else None)
      else None)"

definition int_digits :: "string \<Rightarrow> int option" where
  "int_digits ds =
     (case ds of
        [] \<Rightarrow> None
      | c # cs \<Rightarrow>
          if py_isdigit c \<and> length (filter py_isdigit ds) \<le> int_max_str_digits
          then digits_value (digit_val c) cs else None)"

definition py_int :: "string \<Rightarrow> error + int" where
  "py_int s =
     (case int_strip s of
        [] \<Rightarrow> Inl ValueError
      | c # cs \<Rightarrow>
          (if c = CHR ''-'' then
             (case int_digits cs of None \<Rightarrow> Inl ValueError | Some n \<Rightarrow> Inr (- n))
           else if c = CHR ''+'' then
             (case int_digits cs of None \<Rightarrow> Inl ValueError | Some n \<Rightarrow> Inr n)
           else
             (case int_digits (c # cs) of None \<Rightarrow> Inl ValueError | Some n \<Rightarrow> Inr n)))"

text \<open>\<open>sub in s\<close> and \<open>sep.join(parts)\<close>.\<close>

fun py_contains :: "string \<Rightarrow> string \<Rightarrow> bool" where
  "py_contains [] sub \<longleftrightarrow> sub = []"
| "py_contains (c # cs) sub \<longleftrightarrow> py_startswith (c # cs) sub \<or> py_contains cs sub"

fun py_join :: "string \<Rightarrow> string list \<Rightarrow> string" where
  "py_join sep [] = []"
| "py_join sep [p] = p"
| "py_join sep (p # q # ps) = p @ sep @ py_join sep (q # ps)"

text \<open>
  \<open>s.split(sep)\<close> for a separator of several characters: the pieces between the
  occurrences of \<open>sep\<close>, found from the left without overlap. (Python raises on an
  empty separator; the scripts only call it with a fixed non-empty one.)
\<close>

fun py_split_str_acc :: "string \<Rightarrow> string \<Rightarrow> string \<Rightarrow> string list" where
  "py_split_str_acc sep cur [] = [cur]"
| "py_split_str_acc sep cur (c # cs) =
     (if sep \<noteq> [] \<and> py_startswith (c # cs) sep
      then cur # py_split_str_acc sep [] (drop (length sep - 1) cs)
      else py_split_str_acc sep (cur @ [c]) cs)"

definition py_split_str :: "string \<Rightarrow> string \<Rightarrow> string list" where
  "py_split_str sep s = py_split_str_acc sep [] s"

section \<open>The MAC correlation index\<close>

subsection \<open>\<open>parse_new_switch_mac_table\<close> (config\_deploy\_1.2.py)\<close>

text \<open>
  One line of the replacement switch's MAC table. A line counts as a row when, stripped,
  it starts with a digit (\<open>re.match(r"^\d", line)\<close>) and has at least four
  whitespace-separated columns; the key is the second column in lower case, the value
  the fourth column.
\<close>

definition new_switch_row :: "string \<Rightarrow> (string \<times> string) option" where
  "new_switch_row raw =
     (case py_strip raw of
        [] \<Rightarrow> None
      | c # cs \<Rightarrow>
          if py_isdigit c then
            (let parts = py_split (c # cs)
             in if length parts \<ge> 4 then Some (py_lower (parts ! 1), parts ! 3) else None)
          else None)"

text \<open>The loop body is \<open>mac_map[mac] = interface\<close>: a plain dictionary store.\<close>

fun new_switch_loop :: "string list \<Rightarrow> (string \<rightharpoonup> string) \<Rightarrow> (string \<rightharpoonup> string)" where
  "new_switch_loop [] mac_map = mac_map"
| "new_switch_loop (l # ls) mac_map =
     new_switch_loop ls
       (case new_switch_row l of None \<Rightarrow> mac_map | Some (m, i) \<Rightarrow> mac_map(m \<mapsto> i))"

definition parse_new_switch_mac_table :: "string \<Rightarrow> (string \<rightharpoonup> string)" where
  "parse_new_switch_mac_table output = new_switch_loop (py_splitlines output) Map.empty"

subsection \<open>\<open>get_mac_to_interface\<close> (build\_mac\_profile\_db.py)\<close>

definition is_hex :: "char \<Rightarrow> bool" where
  "is_hex c \<longleftrightarrow> c \<in> set ''0123456789abcdef''"

text \<open>
  \<open>re.match(r"[0-9a-f]{4}\.[0-9a-f]{4}\.[0-9a-f]{4}", s)\<close>: the pattern is matched at
  the start of \<open>s\<close> only, so anything may follow the fourteen characters.
\<close>

definition dotted_mac_match :: "string \<Rightarrow> bool" where
  "dotted_mac_match s \<longleftrightarrow>
     length s \<ge> 14 \<and>
     list_all is_hex (take 4 s) \<and> s ! 4 = CHR ''.'' \<and>
     list_all is_hex (take 4 (drop 5 s)) \<and> s ! 9 = CHR ''.'' \<and>
     list_all is_hex (take 4 (drop 10 s))"

fun pairs_of :: "string \<Rightarrow> string list" where
  "pairs_of [] = []"
| "pairs_of [a] = [[a]]"
| "pairs_of (a # b # cs) = [a, b] # pairs_of cs"

text \<open>
  \<open>parts[1].replace('.', '').lower()\<close>, then the characters joined two by two with
  colons.
\<close>

definition colon_mac :: "string \<Rightarrow> string" where
  "colon_mac p = py_join '':'' (pairs_of (py_lower (filter (\<lambda>c. c \<noteq> CHR ''.'') p)))"

definition profile_row :: "string \<Rightarrow> (string \<times> string) option" where
  "profile_row line =
     (let parts = py_split line
      in if length parts \<ge> 3 \<and> dotted_mac_match (py_lower (parts ! 1))
         then Some (colon_mac (parts ! 1), last parts) else None)"

fun mac_to_if_loop :: "string list \<Rightarrow> (string \<rightharpoonup> string) \<Rightarrow> (string \<rightharpoonup> string)" where
  "mac_to_if_loop [] mac_to_if = mac_to_if"
| "mac_to_if_loop (l # ls) mac_to_if =
     mac_to_if_loop ls
       (case profile_row l of None \<Rightarrow> mac_to_if | Some (m, i) \<Rightarrow> mac_to_if(m \<mapsto> i))"

definition get_mac_to_interface :: "string \<Rightarrow> (string \<rightharpoonup> string)" where
  "get_mac_to_interface output = mac_to_if_loop (py_splitlines output) Map.empty"

section \<open>The legacy snapshot: \<open>parse_config_collector_output\<close>\<close>

text \<open>
  An entry of the MAC table section. The parser always stores the four keys, so the
  dictionary is a record; a missing fourth column gives the empty role.
\<close>

record entry =
  vlan :: string
  mac :: string
  interface :: string
  role :: string

datatype snapshot_part = MacPart | VlanPart | RunningPart

definition section_of :: "string \<Rightarrow> snapshot_part option" where
  "section_of line =
     (if py_contains line ''MAC_ADDRESS_TABLE'' then Some MacPart
      else if py_contains line ''VLAN_NAMES'' then Some VlanPart
      else if py_contains line ''RUNNING_CONFIG'' then Some RunningPart
      else None)"

definition mac_entry :: "string \<Rightarrow> entry option" where
  "mac_entry line =
     (let parts = py_split_on CHR '','' line
      in if length parts < 3 then None
         else Some \<lparr> vlan = py_strip (parts ! 0),
                     mac = py_lower (py_strip (parts ! 1)),
                     interface = py_strip (parts ! 2),
                     role = (if length parts \<ge> 4 then py_strip (parts ! 3) else []) \<rparr>)"

definition vlan_name_row :: "string \<Rightarrow> (string \<times> string) option" where
  "vlan_name_row line =
     (let parts = py_split_on CHR '','' line
      in if length parts \<ge> 2 then Some (py_strip (parts ! 0), py_strip (parts ! 1)) else None)"

text \<open>
  The loop over the lines of the file, carrying the two results and the current section.
\<close>

fun collector_loop ::
  "string list \<Rightarrow> snapshot_part option \<Rightarrow> entry list \<Rightarrow> (string \<rightharpoonup> string) \<Rightarrow>
   entry list \<times> (string \<rightharpoonup> string)" where
  "collector_loop [] current_section mac_table_entries vlan_names =
     (mac_table_entries, vlan_names)"
| "collector_loop (raw # ls) current_section mac_table_entries vlan_names =
     (let line = py_strip raw
      in if line = [] then collector_loop ls current_section mac_table_entries vlan_names
         else if py_startswith line ''==='' then
           collector_loop ls (section_of line) mac_table_entries vlan_names
         else if current_section = Some MacPart then
           (case mac_entry line of
              None \<Rightarrow> collector_loop ls current_section mac_table_entries vlan_names
            | Some e \<Rightarrow>
                collector_loop ls current_section (mac_table_entries @ [e]) vlan_names)
         else if current_section = Some VlanPart then
           (case vlan_name_row line of
              None \<Rightarrow> collector_loop ls current_section mac_table_entries vlan_names
            | Some (v, n) \<Rightarrow>
                collector_loop ls current_section mac_table_entries (vlan_names(v \<mapsto> n)))
         else collector_loop ls current_section mac_table_entries vlan_names)"

definition parse_config_collector_output ::
  "string list \<Rightarrow> entry list \<times> (string \<rightharpoonup> string)" where
  "parse_config_collector_output file_lines = collector_loop file_lines None [] Map.empty"

section \<open>The port-mode report: \<open>get_interface_modes\<close>\<close>

text \<open>
  The function reads the text the switch returned for \<open>show interfaces switchport\<close>.
  A \<open>Name:\<close> line with a second column opens an interface and stores \<open>None\<close> for
  it; the first later line containing \<open>Operational Mode:\<close> stores the mode (stripped,
  lower case) and closes the interface. A dictionary value is therefore a
  \<open>string option\<close>, and an interface that was never named has no value at all.
\<close>

fun interface_modes_loop ::
  "string list \<Rightarrow> string option \<Rightarrow> (string \<rightharpoonup> string option) \<Rightarrow>
   (string \<rightharpoonup> string option)" where
  "interface_modes_loop [] current_intf interface_modes = interface_modes"
| "interface_modes_loop (raw # ls) current_intf interface_modes =
     (let line = py_strip raw
      in if py_startswith line ''Name:'' then
           (let parts = py_split line
            in if length parts \<ge> 2
               then interface_modes_loop ls (Some (parts ! 1))
                      (interface_modes(parts ! 1 \<mapsto> None))
               else interface_modes_loop ls current_intf interface_modes)
         else
           (case current_intf of
              None \<Rightarrow> interface_modes_loop ls current_intf interface_modes
            | Some intf \<Rightarrow>
                if intf \<noteq> [] \<and> py_contains line ''Operational Mode:'' then
                  (let parts = py_split_str ''Operational Mode:'' line
                   in if length parts > 1
                      then interface_modes_loop ls None
                             (interface_modes(intf \<mapsto> Some (py_lower (py_strip (parts ! 1)))))
                      else interface_modes_loop ls current_intf interface_modes)
                else interface_modes_loop ls current_intf interface_modes))"

definition get_interface_modes :: "string \<Rightarrow> (string \<rightharpoonup> string option)" where
  "get_interface_modes output = interface_modes_loop (py_splitlines output) None Map.empty"

section \<open>The migration plan: \<open>build_config_commands\<close>\<close>

subsection \<open>Which VLANs to create\<close>

text \<open>
  \<open>vlans_to_create\<close> is a Python set. It is kept as a list without repetitions, the
  elements in the order of their first insertion; \<open>set_add\<close> is \<open>set.add\<close>.
\<close>

definition set_add :: "string \<Rightarrow> string list \<Rightarrow> string list" where
  "set_add x xs = (if x \<in> set xs then xs else xs @ [x])"

fun vlans_to_create_loop ::
  "entry list \<Rightarrow> string set \<Rightarrow> string set \<Rightarrow> string list \<Rightarrow> string list" where
  "vlans_to_create_loop [] existing_vlans exclude_vlans vlans_to_create = vlans_to_create"
| "vlans_to_create_loop (e # es) existing_vlans exclude_vlans vlans_to_create =
     (if vlan e = [] \<or> vlan e \<in> exclude_vlans
      then vlans_to_create_loop es existing_vlans exclude_vlans vlans_to_create
      else if vlan e \<notin> existing_vlans
      then vlans_to_create_loop es existing_vlans exclude_vlans
             (set_add (vlan e) vlans_to_create)
      else vlans_to_create_loop es existing_vlans exclude_vlans vlans_to_create)"

definition vlans_to_create :: "entry list \<Rightarrow> string set \<Rightarrow> string set \<Rightarrow> string list" where
  "vlans_to_create mac_table_entries existing_vlans exclude_vlans =
     vlans_to_create_loop mac_table_entries existing_vlans exclude_vlans []"

subsection \<open>\<open>sorted(vlans_to_create, key=lambda x: int(x))\<close>\<close>

text \<open>
  \<open>sorted\<close> first takes the key of every element, so one element that \<open>int\<close>
  rejects makes the whole call raise. Then it sorts stably by the keys, which is what
  \<open>sort_key\<close> (insertion sort) does as well.
\<close>

fun int_keys :: "string list \<Rightarrow> error + (int \<times> string) list" where
  "int_keys [] = Inr []"
| "int_keys (v # vs) =
     (case py_int v of
        Inl err \<Rightarrow> Inl err
      | Inr k \<Rightarrow> (case int_keys vs of Inl err \<Rightarrow> Inl err | Inr ks \<Rightarrow> Inr ((k, v) # ks)))"

definition sorted_by_int :: "string list \<Rightarrow> error + string list" where
  "sorted_by_int vs =
     (case int_keys vs of Inl err \<Rightarrow> Inl err | Inr ks \<Rightarrow> Inr (map snd (sort_key fst ks)))"

subsection \<open>The two command loops\<close>

definition vlan_name_of :: "(string \<rightharpoonup> string) \<Rightarrow> string \<Rightarrow> string" where
  "vlan_name_of vlan_names v = (case vlan_names v of Some n \<Rightarrow> n | None \<Rightarrow> ''VLAN_'' @ v)"

text \<open>
  The four command formats: \<open>f"vlan {vlan}"\<close>, \<open>f" name {vlan_name}"\<close>,
  \<open>f"interface {new_interface}"\<close> and \<open>f" switchport access vlan {vlan}"\<close>.
\<close>

definition vlan_cmd :: "string \<Rightarrow> string" where
  "vlan_cmd v = ''vlan '' @ v"

definition name_cmd :: "string \<Rightarrow> string" where
  "name_cmd n = '' name '' @ n"

definition interface_cmd :: "string \<Rightarrow> string" where
  "interface_cmd i = ''interface '' @ i"

definition access_cmd :: "string \<Rightarrow> string" where
  "access_cmd v = '' switchport access vlan '' @ v"

fun create_vlans :: "(string \<rightharpoonup> string) \<Rightarrow> string list \<Rightarrow> string list \<Rightarrow> string list" where
  "create_vlans vlan_names [] commands = commands"
| "create_vlans vlan_names (v # vs) commands =
     create_vlans vlan_names vs
       (commands @ [vlan_cmd v, name_cmd (vlan_name_of vlan_names v)])"

text \<open>
  The state of the second loop: the commands so far, the interfaces already assigned,
  and the lines printed so far (the warnings are the function's only diagnostics).
\<close>

record plan_state =
  commands :: "string list"
  processed_interfaces :: "string set"
  printed :: "string list"

definition mode_text :: "string option \<Rightarrow> string" where
  "mode_text mode = (case mode of None \<Rightarrow> ''None'' | Some m \<Rightarrow> m)"

definition not_found_warning :: "string \<Rightarrow> string" where
  "not_found_warning m =
     ''Warning: MAC '' @ m @ '' not found on new switch. Skipping this entry.''"

definition not_access_notice :: "string \<Rightarrow> string option \<Rightarrow> string" where
  "not_access_notice new_interface mode =
     ''Skipping interface '' @ new_interface @ '' (mode: '' @ mode_text mode @
     '') - not a static access port.''"

text \<open>\<open>interface_modes.get(new_interface)\<close>: \<open>None\<close> for a missing key too.\<close>

definition mode_get :: "(string \<rightharpoonup> string option) \<Rightarrow> string \<Rightarrow> string option" where
  "mode_get interface_modes i = (case interface_modes i of None \<Rightarrow> None | Some m \<Rightarrow> m)"

definition assign_entry ::
  "(string \<rightharpoonup> string) \<Rightarrow> (string \<rightharpoonup> string option) \<Rightarrow> string set \<Rightarrow> entry \<Rightarrow>
   plan_state \<Rightarrow> plan_state" where
  "assign_entry new_switch_mac_map interface_modes exclude_vlans e st =
     (if vlan e = [] \<or> mac e = [] \<or> vlan e \<in> exclude_vlans then st
      else
        (case new_switch_mac_map (mac e) of
           None \<Rightarrow> st\<lparr>printed := printed st @ [not_found_warning (mac e)]\<rparr>
         | Some new_interface \<Rightarrow>
             if new_interface = []
             then st\<lparr>printed := printed st @ [not_found_warning (mac e)]\<rparr>
             else
               (let mode = mode_get interface_modes new_interface
                in if mode \<noteq> Some ''static access''
                   then st\<lparr>printed := printed st @ [not_access_notice new_interface mode]\<rparr>
                   else if new_interface \<in> processed_interfaces st then st
                   else st\<lparr>commands := commands st @
                                  [interface_cmd new_interface, access_cmd (vlan e)],
                             processed_interfaces :=
                               insert new_interface (processed_interfaces st)\<rparr>)))"

fun assign_ports ::
  "(string \<rightharpoonup> string) \<Rightarrow> (string \<rightharpoonup> string option) \<Rightarrow> string set \<Rightarrow> entry list \<Rightarrow>
   plan_state \<Rightarrow> plan_state" where
  "assign_ports new_switch_mac_map interface_modes exclude_vlans [] st = st"
| "assign_ports new_switch_mac_map interface_modes exclude_vlans (e # es) st =
     assign_ports new_switch_mac_map interface_modes exclude_vlans es
       (assign_entry new_switch_mac_map interface_modes exclude_vlans e st)"

subsection \<open>The function\<close>

text \<open>
  The order in which Python walks over a set is not fixed by the language, and for
  strings it changes from one run to the next. It decides the order of elements with
  equal keys in \<open>sorted\<close>, so it is the parameter \<open>set_order\<close>: it rearranges the
  elements of the set. The function returns the commands; the printed lines are returned
  with them. A \<open>ValueError\<close> from \<open>sorted\<close> leaves the function before anything
  is printed.
\<close>

definition rearranges :: "(string list \<Rightarrow> string list) \<Rightarrow> bool" where
  "rearranges set_order \<longleftrightarrow> (\<forall>xs. mset (set_order xs) = mset xs)"

definition build_config_commands ::
  "(string list \<Rightarrow> string list) \<Rightarrow> entry list \<Rightarrow> (string \<rightharpoonup> string) \<Rightarrow> string set \<Rightarrow>
   (string \<rightharpoonup> string) \<Rightarrow> (string \<rightharpoonup> string option) \<Rightarrow> string set \<Rightarrow>
   error + (string list \<times> string list)" where
  "build_config_commands set_order mac_table_entries vlan_names existing_vlans
     new_switch_mac_map interface_modes exclude_vlans =
     (case sorted_by_int (set_order (vlans_to_create mac_table_entries existing_vlans
                                      exclude_vlans)) of
        Inl err \<Rightarrow> Inl err
      | Inr vs \<Rightarrow>
          (let st = assign_ports new_switch_mac_map interface_modes exclude_vlans
                      mac_table_entries
                      \<lparr>commands = create_vlans vlan_names vs [],
                       processed_interfaces = {}, printed = []\<rparr>
           in Inr (commands st, printed st)))"

section \<open>The configuration blocks: \<open>get_interface_blocks\<close>\<close>





section \<open>Vocabulary of the statements\<close>

text \<open>
  A record is \<open>considered\<close> by the second loop when it passes the loop's first test
  (\<open>if not vlan or not mac or vlan in exclude_vlans: continue\<close>). It is
  \<open>assignable\<close> to an interface when, in addition, its address is found in the MAC
  table of the new switch under that (non-empty) interface and the interface is a
  static access port.
\<close>

definition considered :: "string set \<Rightarrow> entry \<Rightarrow> bool" where
  "considered exclude_vlans e \<longleftrightarrow>
     vlan e \<noteq> [] \<and> mac e \<noteq> [] \<and> vlan e \<notin> exclude_vlans"

definition assignable ::
  "(string \<rightharpoonup> string) \<Rightarrow> (string \<rightharpoonup> string option) \<Rightarrow> string set \<Rightarrow> string \<Rightarrow>
   entry \<Rightarrow> bool" where
  "assignable new_switch_mac_map interface_modes exclude_vlans i e \<longleftrightarrow>
     considered exclude_vlans e \<and> new_switch_mac_map (mac e) = Some i \<and> i \<noteq> [] \<and>
     mode_get interface_modes i = Some ''static access''"

text \<open>The two commands that create one VLAN, and the VLANs a plan creates, in order.\<close>

definition creation_pair :: "(string \<rightharpoonup> string) \<Rightarrow> string \<Rightarrow> string list" where
  "creation_pair vlan_names v = [vlan_cmd v, name_cmd (vlan_name_of vlan_names v)]"

definition created_vlans :: "string list \<Rightarrow> string list" where
  "created_vlans cmds =
     map (drop (length ''vlan '')) (filter (\<lambda>c. py_startswith c ''vlan '') cmds)"

definition assignment_pair :: "string \<Rightarrow> entry \<Rightarrow> string list" where
  "assignment_pair i e = [interface_cmd i, access_cmd (vlan e)]"

definition start_state :: "string list \<Rightarrow> plan_state" where
  "start_state cmds = \<lparr>commands = cmds, processed_interfaces = {}, printed = []\<rparr>"

text \<open>
  The words of claim C2: two texts are representations of the same hardware address when
  they agree once the delimiters (dots and colons) are dropped and the letters are put in
  lower case.
\<close>

definition hex_digits_of :: "string \<Rightarrow> string" where
  "hex_digits_of s = py_lower (filter (\<lambda>c. c \<noteq> CHR ''.'' \<and> c \<noteq> CHR '':'') s)"

definition same_hardware_address :: "string \<Rightarrow> string \<Rightarrow> bool" where
  "same_hardware_address a b \<longleftrightarrow> hex_digits_of a = hex_digits_of b"

text \<open>
  The shape of a table row: columns are tokens (non-empty, no whitespace), separated by
  gaps (non-empty runs of whitespace), with blanks (possibly empty runs) around.
\<close>

definition blank :: "string \<Rightarrow> bool" where
  "blank w \<longleftrightarrow> list_all py_isspace w"

definition gap :: "string \<Rightarrow> bool" where
  "gap w \<longleftrightarrow> w \<noteq> [] \<and> list_all py_isspace w"

definition token :: "string \<Rightarrow> bool" where
  "token x \<longleftrightarrow> x \<noteq> [] \<and> list_all (\<lambda>c. \<not> py_isspace c) x"








section \<open>Lemmas about the text primitives\<close>

lemma py_startswith_iff: "py_startswith c p \<longleftrightarrow> (\<exists>r. c = p @ r)"
proof
  assume "py_startswith c p"
  then have "c = p @ drop (length p) c"
    by (metis append_take_drop_id py_startswith_def)
  then show "\<exists>r. c = p @ r" ..
next
  assume "\<exists>r. c = p @ r"
  then show "py_startswith c p" by (auto simp: py_startswith_def)
qed










subsection \<open>Fields of a comma-separated line\<close>

lemma split_on_field:
  "sep \<notin> set x \<Longrightarrow>
   py_split_on_acc sep cur (x @ sep # rest) = (cur @ x) # py_split_on_acc sep [] rest"
  by (induction x arbitrary: cur) auto

lemma split_on_last: "sep \<notin> set x \<Longrightarrow> py_split_on_acc sep cur x = [cur @ x]"
  by (induction x arbitrary: cur) auto


lemma split_on_four:
  assumes "sep \<notin> set v" "sep \<notin> set a" "sep \<notin> set i" "sep \<notin> set r"
  shows "py_split_on sep (v @ sep # a @ sep # i @ sep # r) = [v, a, i, r]"
  using assms by (simp add: py_split_on_def split_on_field split_on_last)

section \<open>Lemmas about the plan builder\<close>

subsection \<open>The set of VLANs to create\<close>

lemma set_add_set: "set (set_add x xs) = insert x (set xs)"
  by (auto simp: set_add_def)

lemma set_add_distinct: "distinct xs \<Longrightarrow> distinct (set_add x xs)"
  by (auto simp: set_add_def)

lemma vlans_to_create_loop_set:
  "set (vlans_to_create_loop es ex excl acc) =
     set acc \<union> {v. \<exists>e \<in> set es. v = vlan e \<and> vlan e \<noteq> [] \<and> vlan e \<notin> excl \<and> vlan e \<notin> ex}"
  by (induction es arbitrary: acc) (auto simp: set_add_set)

lemma vlans_to_create_loop_distinct:
  "distinct acc \<Longrightarrow> distinct (vlans_to_create_loop es ex excl acc)"
  by (induction es arbitrary: acc) (auto simp: set_add_distinct)

lemma vlans_to_create_set:
  "set (vlans_to_create es ex excl) =
     {v. \<exists>e \<in> set es. v = vlan e \<and> vlan e \<noteq> [] \<and> vlan e \<notin> excl \<and> vlan e \<notin> ex}"
  by (simp add: vlans_to_create_def vlans_to_create_loop_set)

lemma vlans_to_create_distinct: "distinct (vlans_to_create es ex excl)"
  by (simp add: vlans_to_create_def vlans_to_create_loop_distinct)

subsection \<open>Sorting by the integer key\<close>

lemma int_keys_pairs:
  "int_keys vs = Inr ks \<Longrightarrow> \<forall>p \<in> set ks. py_int (snd p) = Inr (fst p)"
  by (induction vs arbitrary: ks) (auto split: sum.splits)

lemma int_keys_snd: "int_keys vs = Inr ks \<Longrightarrow> map snd ks = vs"
  by (induction vs arbitrary: ks) (auto split: sum.splits)

lemma int_keys_total:
  "(\<forall>v \<in> set vs. \<exists>k. py_int v = Inr k) \<Longrightarrow> \<exists>ks. int_keys vs = Inr ks"
  by (induction vs) (auto split: sum.splits)

lemma sorted_by_int_mset:
  assumes "sorted_by_int vs = Inr ws"
  shows "mset ws = mset vs"
proof -
  from assms obtain ks0 where k: "int_keys vs = Inr ks0" and w: "ws = map snd (sort_key fst ks0)"
    by (auto simp: sorted_by_int_def split: sum.splits)
  have "mset ws = image_mset snd (mset (sort_key fst ks0))" by (simp add: w)
  also have "\<dots> = mset (map snd ks0)" by simp
  finally show "mset ws = mset vs" using int_keys_snd[OF k] by simp
qed

lemma sorted_by_int_keys:
  assumes "sorted_by_int vs = Inr ws"
  shows "\<exists>ks. map py_int ws = map Inr ks \<and> sorted ks"
proof -
  from assms obtain ks0 where k: "int_keys vs = Inr ks0" and w: "ws = map snd (sort_key fst ks0)"
    by (auto simp: sorted_by_int_def split: sum.splits)
  have "\<forall>p \<in> set (sort_key fst ks0). py_int (snd p) = Inr (fst p)"
    using int_keys_pairs[OF k] by simp
  then have "map py_int ws = map Inr (map fst (sort_key fst ks0))"
    by (simp add: w)
  moreover have "sorted (map fst (sort_key fst ks0))" by (rule sorted_sort_key)
  ultimately show ?thesis by blast
qed

lemma sorted_by_int_total:
  "(\<forall>v \<in> set vs. \<exists>k. py_int v = Inr k) \<Longrightarrow> \<exists>ws. sorted_by_int vs = Inr ws"
  using int_keys_total[of vs] by (auto simp: sorted_by_int_def)

lemma sorted_by_int_Nil: "sorted_by_int [] = Inr []"
  by (simp add: sorted_by_int_def)

lemma rearranges_set: "rearranges so \<Longrightarrow> set (so xs) = set xs"
  by (metis rearranges_def set_mset_mset)

lemma rearranges_Nil: "rearranges so \<Longrightarrow> so [] = []"
  by (metis rearranges_def mset_zero_iff)

lemma rearranges_distinct: "rearranges so \<Longrightarrow> distinct (so xs) = distinct xs"
  by (metis rearranges_def distinct_count_atmost_1 set_mset_mset)

subsection \<open>The command formats\<close>

lemma cmd_inject:
  "vlan_cmd a = vlan_cmd b \<longleftrightarrow> a = b"
  "name_cmd a = name_cmd b \<longleftrightarrow> a = b"
  "interface_cmd a = interface_cmd b \<longleftrightarrow> a = b"
  "access_cmd a = access_cmd b \<longleftrightarrow> a = b"
  by (simp_all add: vlan_cmd_def name_cmd_def interface_cmd_def access_cmd_def)

lemma cmd_distinct:
  "vlan_cmd a \<noteq> name_cmd b" "vlan_cmd a \<noteq> interface_cmd b" "vlan_cmd a \<noteq> access_cmd b"
  "name_cmd a \<noteq> vlan_cmd b" "name_cmd a \<noteq> interface_cmd b" "name_cmd a \<noteq> access_cmd b"
  "interface_cmd a \<noteq> vlan_cmd b" "interface_cmd a \<noteq> name_cmd b"
  "interface_cmd a \<noteq> access_cmd b"
  "access_cmd a \<noteq> vlan_cmd b" "access_cmd a \<noteq> name_cmd b"
  "access_cmd a \<noteq> interface_cmd b"
  by (simp_all add: vlan_cmd_def name_cmd_def interface_cmd_def access_cmd_def)

lemma startswith_vlan:
  "py_startswith (vlan_cmd v) ''vlan ''"
  "\<not> py_startswith (name_cmd n) ''vlan ''"
  "\<not> py_startswith (interface_cmd i) ''vlan ''"
  "\<not> py_startswith (access_cmd v) ''vlan ''"
  by (simp_all add: py_startswith_def vlan_cmd_def name_cmd_def interface_cmd_def
      access_cmd_def)

lemma drop_vlan_cmd: "drop (length ''vlan '') (vlan_cmd v) = v"
  by (simp add: vlan_cmd_def)

lemma startswith_vlan_cmd: "py_startswith c ''vlan '' \<Longrightarrow> c = vlan_cmd (drop (length ''vlan '') c)"
  unfolding vlan_cmd_def py_startswith_def by (metis append_take_drop_id)

subsection \<open>The creation commands\<close>

lemma create_vlans_pairs:
  "create_vlans names vs cmds = cmds @ concat (map (creation_pair names) vs)"
  by (induction vs arbitrary: cmds) (auto simp: creation_pair_def)

lemma created_vlans_append: "created_vlans (xs @ ys) = created_vlans xs @ created_vlans ys"
  by (simp add: created_vlans_def)

lemma created_vlans_Nil: "created_vlans [] = []"
  by (simp add: created_vlans_def)

lemma created_vlans_pair: "created_vlans (creation_pair names v) = [v]"
  unfolding created_vlans_def creation_pair_def
  by (simp only: filter.simps startswith_vlan if_True if_False list.map drop_vlan_cmd)

lemma created_vlans_pairs: "created_vlans (concat (map (creation_pair names) vs)) = vs"
  by (induction vs) (simp_all add: created_vlans_Nil created_vlans_append created_vlans_pair)

lemma created_vlans_mem: "v \<in> set (created_vlans cmds) \<longleftrightarrow> vlan_cmd v \<in> set cmds"
proof
  assume "v \<in> set (created_vlans cmds)"
  then obtain c where c: "c \<in> set cmds" "py_startswith c ''vlan ''"
      "v = drop (length ''vlan '') c"
    unfolding created_vlans_def by auto
  then show "vlan_cmd v \<in> set cmds" using startswith_vlan_cmd[OF c(2)] by simp
next
  assume a: "vlan_cmd v \<in> set cmds"
  then have "vlan_cmd v \<in> set (filter (\<lambda>c. py_startswith c ''vlan '') cmds)"
    by (simp add: startswith_vlan(1))
  then have "drop (length ''vlan '') (vlan_cmd v) \<in> set (created_vlans cmds)"
    unfolding created_vlans_def set_map by (rule imageI)
  then show "v \<in> set (created_vlans cmds)" by (simp only: drop_vlan_cmd)
qed

lemma set_creation:
  "set (concat (map (creation_pair names) vs)) =
     vlan_cmd ` set vs \<union> (\<lambda>v. name_cmd (vlan_name_of names v)) ` set vs"
  by (induction vs) (auto simp: creation_pair_def)

subsection \<open>The port loop\<close>

lemma assign_entry_skip:
  assumes "mm (mac e) = Some i" "i \<noteq> []" "mode_get im i = Some ''static access''"
    "i \<in> processed_interfaces st"
  shows "assign_entry mm im ex e st = st"
  using assms by (auto simp: assign_entry_def Let_def)

lemma assign_entry_step:
  "(\<exists>i. assignable mm im ex i e \<and> i \<notin> processed_interfaces st \<and>
        assign_entry mm im ex e st =
          st\<lparr>commands := commands st @ assignment_pair i e,
             processed_interfaces := insert i (processed_interfaces st)\<rparr>)
   \<or> (commands (assign_entry mm im ex e st) = commands st \<and>
       processed_interfaces (assign_entry mm im ex e st) = processed_interfaces st \<and>
       (\<forall>i. assignable mm im ex i e \<longrightarrow> i \<in> processed_interfaces st))"
  by (auto simp: assign_entry_def assignable_def considered_def assignment_pair_def Let_def
      split: option.splits)

lemma assign_ports_append:
  "assign_ports mm im ex (xs @ ys) st = assign_ports mm im ex ys (assign_ports mm im ex xs st)"
  by (induction xs arbitrary: st) auto

lemma assign_ports_commands:
  "\<exists>ext. commands (assign_ports mm im ex es st) = commands st @ ext \<and>
     (\<forall>c \<in> set ext. \<exists>e \<in> set es. \<exists>i. assignable mm im ex i e \<and> c \<in> set (assignment_pair i e))"
proof (induction es arbitrary: st)
  case Nil show ?case by simp
next
  case (Cons x xs)
  let ?st' = "assign_entry mm im ex x st"
  obtain ext where e: "commands (assign_ports mm im ex xs ?st') = commands ?st' @ ext"
     "\<forall>c \<in> set ext. \<exists>e \<in> set xs. \<exists>i. assignable mm im ex i e \<and> c \<in> set (assignment_pair i e)"
    using Cons[of ?st'] by blast
  from assign_entry_step[of mm im ex x st] show ?case
  proof
    assume "\<exists>i. assignable mm im ex i x \<and> i \<notin> processed_interfaces st \<and>
        ?st' = st\<lparr>commands := commands st @ assignment_pair i x,
             processed_interfaces := insert i (processed_interfaces st)\<rparr>"
    then obtain i where i: "assignable mm im ex i x"
      "commands ?st' = commands st @ assignment_pair i x"
      by auto
    have "commands (assign_ports mm im ex (x # xs) st) = commands st @ (assignment_pair i x @ ext)"
      using e(1) i(2) by simp
    moreover have "\<forall>c \<in> set (assignment_pair i x @ ext).
       \<exists>e \<in> set (x # xs). \<exists>i. assignable mm im ex i e \<and> c \<in> set (assignment_pair i e)"
      using e(2) i(1) by auto
    ultimately show ?thesis by blast
  next
    assume "commands ?st' = commands st \<and>
       processed_interfaces ?st' = processed_interfaces st \<and>
       (\<forall>i. assignable mm im ex i x \<longrightarrow> i \<in> processed_interfaces st)"
    then have "commands (assign_ports mm im ex (x # xs) st) = commands st @ ext"
      using e(1) by simp
    moreover have "\<forall>c \<in> set ext. \<exists>e \<in> set (x # xs). \<exists>i. assignable mm im ex i e \<and>
         c \<in> set (assignment_pair i e)"
      using e(2) by auto
    ultimately show ?thesis by blast
  qed
qed

lemma assign_entry_processed:
  "processed_interfaces (assign_entry mm im ex e st) =
     processed_interfaces st \<union> {i. assignable mm im ex i e}"
  using assign_entry_step[of mm im ex e st]
  by (auto simp: assignable_def)

lemma assign_ports_processed:
  "processed_interfaces (assign_ports mm im ex es st) =
     processed_interfaces st \<union> {i. \<exists>e \<in> set es. assignable mm im ex i e}"
  by (induction es arbitrary: st) (auto simp: assign_entry_processed)

lemma assign_entry_frame:
  "assign_entry mm im ex e (st\<lparr>commands := c0 @ commands st\<rparr>) =
     (assign_entry mm im ex e st)\<lparr>commands := c0 @ commands (assign_entry mm im ex e st)\<rparr>"
  by (auto simp: assign_entry_def Let_def split: option.splits)

lemma assign_ports_frame:
  "assign_ports mm im ex es (st\<lparr>commands := c0 @ commands st\<rparr>) =
     (assign_ports mm im ex es st)\<lparr>commands := c0 @ commands (assign_ports mm im ex es st)\<rparr>"
proof (induction es arbitrary: st)
  case Nil show ?case by simp
next
  case (Cons x xs)
  show ?case using Cons[of "assign_entry mm im ex x st"] by (simp add: assign_entry_frame)
qed

lemma assign_ports_start:
  "assign_ports mm im ex es (start_state c0) =
     (assign_ports mm im ex es (start_state []))\<lparr>commands := c0 @ commands (assign_ports mm im ex es (start_state []))\<rparr>"
  using assign_ports_frame[where st = "start_state []" and ?c0.0 = c0] by (simp add: start_state_def)

lemma assign_ports_count:
  assumes "i \<in> processed_interfaces st \<or> (\<forall>e \<in> set es. \<not> assignable mm im ex i e)"
  shows "count_list (commands (assign_ports mm im ex es st)) (interface_cmd i) =
         count_list (commands st) (interface_cmd i)"
  using assms
proof (induction es arbitrary: st)
  case Nil show ?case by simp
next
  case (Cons x xs)
  let ?st' = "assign_entry mm im ex x st"
  have p: "i \<in> processed_interfaces ?st' \<or> (\<forall>e \<in> set xs. \<not> assignable mm im ex i e)"
    using Cons.prems by (auto simp: assign_entry_processed)
  have c: "count_list (commands ?st') (interface_cmd i) = count_list (commands st) (interface_cmd i)"
    using assign_entry_step[of mm im ex x st] Cons.prems
    by (auto simp: assignment_pair_def cmd_inject cmd_distinct)
  show ?case using Cons.IH[OF p] c by simp
qed

lemma assign_entry_printed_frame:
  "assign_entry mm im ex e (st\<lparr>printed := p0 @ printed st\<rparr>) =
     (assign_entry mm im ex e st)\<lparr>printed := p0 @ printed (assign_entry mm im ex e st)\<rparr>"
  by (auto simp: assign_entry_def Let_def split: option.splits)

lemma assign_ports_printed_frame:
  "assign_ports mm im ex es (st\<lparr>printed := p0 @ printed st\<rparr>) =
     (assign_ports mm im ex es st)\<lparr>printed := p0 @ printed (assign_ports mm im ex es st)\<rparr>"
proof (induction es arbitrary: st)
  case Nil show ?case by simp
next
  case (Cons x xs)
  show ?case
    using Cons[of "assign_entry mm im ex x st"] by (simp add: assign_entry_printed_frame)
qed

lemma assign_ports_printed_split:
  "printed (assign_ports mm im ex es st) =
     printed st @ printed (assign_ports mm im ex es (st\<lparr>printed := []\<rparr>))"
  using assign_ports_printed_frame[where st = "st\<lparr>printed := []\<rparr>" and ?p0.0 = "printed st"
      and mm = mm and im = im and ex = ex and es = es]
  by simp

lemma assign_entry_not_access:
  assumes "considered ex r" "mm (mac r) = Some i" "i \<noteq> []"
    "mode_get im i \<noteq> Some ''static access''"
  shows "assign_entry mm im ex r st =
           st\<lparr>printed := printed st @ [not_access_notice i (mode_get im i)]\<rparr>"
  using assms by (auto simp: assign_entry_def considered_def Let_def)

lemma notice_inserted:
  assumes "considered ex r" "mm (mac r) = Some i" "i \<noteq> []"
    "mode_get im i \<noteq> Some ''static access''"
  shows "\<exists>out2.
           printed (assign_ports mm im ex (pre @ r # post) st) =
             printed (assign_ports mm im ex pre st) @ not_access_notice i (mode_get im i) # out2 \<and>
           printed (assign_ports mm im ex (pre @ post) st) =
             printed (assign_ports mm im ex pre st) @ out2"
proof -
  let ?Sp = "assign_ports mm im ex pre st"
  let ?n = "not_access_notice i (mode_get im i)"
  let ?out2 = "printed (assign_ports mm im ex post (?Sp\<lparr>printed := []\<rparr>))"
  have e: "assign_entry mm im ex r ?Sp = ?Sp\<lparr>printed := printed ?Sp @ [?n]\<rparr>"
    by (rule assign_entry_not_access[where mm = mm and i = i, OF assms])
  have "assign_ports mm im ex (pre @ r # post) st =
          assign_ports mm im ex post (?Sp\<lparr>printed := printed ?Sp @ [?n]\<rparr>)"
    using assign_ports_append[of mm im ex pre "r # post" st] e by simp
  then have a: "printed (assign_ports mm im ex (pre @ r # post) st) = printed ?Sp @ ?n # ?out2"
    using assign_ports_printed_split[of mm im ex post "?Sp\<lparr>printed := printed ?Sp @ [?n]\<rparr>"]
    by simp
  have "assign_ports mm im ex (pre @ post) st = assign_ports mm im ex post ?Sp"
    by (rule assign_ports_append)
  then have b: "printed (assign_ports mm im ex (pre @ post) st) = printed ?Sp @ ?out2"
    using assign_ports_printed_split[of mm im ex post ?Sp] by simp
  show ?thesis using a b by blast
qed

subsection \<open>The shape of a plan\<close>

lemma build_structure:
  assumes "build_config_commands so es names existing mm im excl = Inr (cmds, out)"
  shows "\<exists>vs. sorted_by_int (so (vlans_to_create es existing excl)) = Inr vs \<and>
           cmds = commands (assign_ports mm im excl es
                    (start_state (concat (map (creation_pair names) vs)))) \<and>
           out = printed (assign_ports mm im excl es
                    (start_state (concat (map (creation_pair names) vs))))"
  using assms
  by (auto simp: build_config_commands_def Let_def start_state_def create_vlans_pairs
      split: sum.splits)

lemma build_split:
  assumes "build_config_commands so es names existing mm im excl = Inr (cmds, out)"
  shows "\<exists>vs ext. sorted_by_int (so (vlans_to_create es existing excl)) = Inr vs \<and>
           cmds = concat (map (creation_pair names) vs) @ ext \<and>
           ext = commands (assign_ports mm im excl es (start_state [])) \<and>
           out = printed (assign_ports mm im excl es (start_state [])) \<and>
           (\<forall>c \<in> set ext. \<exists>e \<in> set es. \<exists>i. assignable mm im excl i e \<and>
               (c = interface_cmd i \<or> c = access_cmd (vlan e)))"
proof -
  from build_structure[OF assms] obtain vs where
    vs: "sorted_by_int (so (vlans_to_create es existing excl)) = Inr vs"
    and c: "cmds = commands (assign_ports mm im excl es
                     (start_state (concat (map (creation_pair names) vs))))"
    and p: "out = printed (assign_ports mm im excl es
                     (start_state (concat (map (creation_pair names) vs))))"
    by blast
  let ?r = "assign_ports mm im excl es (start_state [])"
  have f: "assign_ports mm im excl es (start_state (concat (map (creation_pair names) vs))) =
       ?r\<lparr>commands := concat (map (creation_pair names) vs) @ commands ?r\<rparr>"
    by (rule assign_ports_start)
  obtain ext where "commands ?r = commands (start_state []) @ ext"
    "\<forall>c \<in> set ext. \<exists>e \<in> set es. \<exists>i. assignable mm im excl i e \<and>
        c \<in> set (assignment_pair i e)"
    using assign_ports_commands[of mm im excl es "start_state []"] by blast
  then have "\<forall>c \<in> set (commands ?r). \<exists>e \<in> set es. \<exists>i. assignable mm im excl i e \<and>
               (c = interface_cmd i \<or> c = access_cmd (vlan e))"
    by (simp add: start_state_def assignment_pair_def)
  then show ?thesis using vs c p f by auto
qed

lemma pending_set:
  assumes "rearranges so" "sorted_by_int (so (vlans_to_create es existing excl)) = Inr vs"
  shows "set vs = {v. \<exists>e \<in> set es. v = vlan e \<and> vlan e \<noteq> [] \<and> vlan e \<notin> excl \<and>
                      vlan e \<notin> existing}"
    and "distinct vs"
proof -
  have m: "mset vs = mset (vlans_to_create es existing excl)"
    using sorted_by_int_mset[OF assms(2)] assms(1) by (simp add: rearranges_def)
  then have "set vs = set (vlans_to_create es existing excl)" by (metis set_mset_mset)
  then show "set vs = {v. \<exists>e \<in> set es. v = vlan e \<and> vlan e \<noteq> [] \<and> vlan e \<notin> excl \<and>
                      vlan e \<notin> existing}"
    by (simp add: vlans_to_create_set)
  show "distinct vs" using m vlans_to_create_distinct[of es existing excl]
    by (metis distinct_count_atmost_1 set_mset_mset)
qed

lemma created_vlans_ports:
  assumes "\<forall>c \<in> set ext. \<exists>e \<in> set es. \<exists>i. assignable mm im excl i e \<and>
               (c = interface_cmd i \<or> c = access_cmd (vlan e))"
  shows "created_vlans ext = []"
proof -
  have "\<not> py_startswith c ''vlan ''" if "c \<in> set ext" for c
  proof -
    from assms that have "\<exists>e \<in> set es. \<exists>i. assignable mm im excl i e \<and>
               (c = interface_cmd i \<or> c = access_cmd (vlan e))"
      by (rule bspec)
    then obtain e where "\<exists>i. assignable mm im excl i e \<and>
               (c = interface_cmd i \<or> c = access_cmd (vlan e))" ..
    then obtain i where "assignable mm im excl i e \<and>
               (c = interface_cmd i \<or> c = access_cmd (vlan e))" ..
    then have "c = interface_cmd i \<or> c = access_cmd (vlan e)" ..
    then show ?thesis using startswith_vlan(3,4) by auto
  qed
  then show ?thesis by (simp add: created_vlans_def filter_empty_conv)
qed

lemma build_created:
  assumes "build_config_commands so es names existing mm im excl = Inr (cmds, out)"
  shows "sorted_by_int (so (vlans_to_create es existing excl)) = Inr (created_vlans cmds)"
proof -
  from build_split[OF assms] obtain vs ext where
    vs: "sorted_by_int (so (vlans_to_create es existing excl)) = Inr vs"
    and c: "cmds = concat (map (creation_pair names) vs) @ ext"
    and ext: "\<forall>c \<in> set ext. \<exists>e \<in> set es. \<exists>i. assignable mm im excl i e \<and>
               (c = interface_cmd i \<or> c = access_cmd (vlan e))"
    by blast
  show ?thesis using vs c created_vlans_ports[OF ext]
    by (simp add: created_vlans_append created_vlans_pairs)
qed

lemma int_keys_each:
  assumes "int_keys vs = Inr ks" "v \<in> set vs"
  shows "\<exists>k. py_int v = Inr k"
proof -
  have "v \<in> snd ` set ks" using int_keys_snd[OF assms(1)] assms(2) by (metis set_map)
  then obtain p where "p \<in> set ks" "v = snd p" by blast
  then show ?thesis using int_keys_pairs[OF assms(1)] by blast
qed

lemma build_fewer:
  assumes "rearranges so"
    and "build_config_commands so es names existing mm im excl = Inr (cmds, out)"
    and "set es' \<subseteq> set es"
  shows "\<exists>cmds'. build_config_commands so es' names existing mm im excl =
           Inr (cmds', printed (assign_ports mm im excl es' (start_state [])))"
proof -
  from build_structure[OF assms(2)] obtain vs where
    "sorted_by_int (so (vlans_to_create es existing excl)) = Inr vs" by blast
  then obtain ks where k: "int_keys (so (vlans_to_create es existing excl)) = Inr ks"
    by (auto simp: sorted_by_int_def split: sum.splits)
  have "\<forall>v \<in> set (so (vlans_to_create es' existing excl)). \<exists>k. py_int v = Inr k"
  proof
    fix v assume "v \<in> set (so (vlans_to_create es' existing excl))"
    then have "v \<in> set (vlans_to_create es' existing excl)"
      using rearranges_set[OF assms(1)] by simp
    then have "v \<in> set (vlans_to_create es existing excl)"
      unfolding vlans_to_create_set using assms(3) by auto
    then have "v \<in> set (so (vlans_to_create es existing excl))"
      using rearranges_set[OF assms(1)] by simp
    then show "\<exists>k. py_int v = Inr k" by (rule int_keys_each[OF k])
  qed
  then obtain ws where w: "sorted_by_int (so (vlans_to_create es' existing excl)) = Inr ws"
    using sorted_by_int_total by blast
  let ?c0 = "concat (map (creation_pair names) ws)"
  have "build_config_commands so es' names existing mm im excl =
          Inr (commands (assign_ports mm im excl es' (start_state ?c0)),
               printed (assign_ports mm im excl es' (start_state ?c0)))"
    using w by (simp add: build_config_commands_def Let_def start_state_def create_vlans_pairs)
  moreover have "printed (assign_ports mm im excl es' (start_state ?c0)) =
          printed (assign_ports mm im excl es' (start_state []))"
    using assign_ports_start[of mm im excl es' ?c0] by simp
  ultimately show ?thesis by simp
qed

subsection \<open>A later record for the same interface\<close>

lemma assign_entry_same:
  assumes "commands s1 = commands s2" "processed_interfaces s1 = processed_interfaces s2"
  shows "commands (assign_entry mm im ex e s1) = commands (assign_entry mm im ex e s2) \<and>
         processed_interfaces (assign_entry mm im ex e s1) =
           processed_interfaces (assign_entry mm im ex e s2)"
  using assms by (auto simp: assign_entry_def Let_def split: option.splits)

lemma assign_ports_same:
  assumes "commands s1 = commands s2" "processed_interfaces s1 = processed_interfaces s2"
  shows "commands (assign_ports mm im ex es s1) = commands (assign_ports mm im ex es s2)"
  using assms
proof (induction es arbitrary: s1 s2)
  case Nil then show ?case by simp
next
  case (Cons x xs)
  show ?case
    using Cons.IH[of "assign_entry mm im ex x s1" "assign_entry mm im ex x s2"]
      assign_entry_same[OF Cons.prems, of mm im ex x] by simp
qed

lemma assign_entry_no_command:
  assumes "mm (mac e) = Some i" "i \<in> processed_interfaces st \<or> \<not> assignable mm im ex i e"
  shows "commands (assign_entry mm im ex e st) = commands st \<and>
         processed_interfaces (assign_entry mm im ex e st) = processed_interfaces st"
  using assms by (auto simp: assign_entry_def assignable_def considered_def Let_def)

lemma assignable_unique: "assignable mm im ex i e \<Longrightarrow> assignable mm im ex j e \<Longrightarrow> i = j"
  by (simp add: assignable_def)

lemma assign_entry_first:
  assumes "assignable mm im ex i e" "i \<notin> processed_interfaces st"
  shows "assign_entry mm im ex e st =
          st\<lparr>commands := commands st @ assignment_pair i e,
             processed_interfaces := insert i (processed_interfaces st)\<rparr>"
  using assms
  by (auto simp: assign_entry_def assignable_def considered_def assignment_pair_def Let_def)

lemma r2_no_command:
  assumes "considered ex r1" "mm (mac r1) = Some i" "mm (mac r2) = Some i"
  shows "commands (assign_ports mm im ex (pre @ r1 # mid @ r2 # post) st) =
         commands (assign_ports mm im ex (pre @ r1 # mid @ post) st)"
proof -
  let ?S1 = "assign_ports mm im ex (pre @ r1 # mid) st"
  have d: "i \<in> processed_interfaces ?S1 \<or> \<not> assignable mm im ex i r2"
  proof (cases "assignable mm im ex i r2")
    case True
    then have "assignable mm im ex i r1" using assms by (simp add: assignable_def)
    then show ?thesis by (auto simp: assign_ports_processed)
  next
    case False then show ?thesis by simp
  qed
  have "commands (assign_ports mm im ex post (assign_entry mm im ex r2 ?S1)) =
        commands (assign_ports mm im ex post ?S1)"
  proof (rule assign_ports_same)
    show "commands (assign_entry mm im ex r2 ?S1) = commands ?S1"
      using assign_entry_no_command[OF assms(3) d] by (rule conjunct1)
    show "processed_interfaces (assign_entry mm im ex r2 ?S1) = processed_interfaces ?S1"
      using assign_entry_no_command[OF assms(3) d] by (rule conjunct2)
  qed
  moreover have "assign_ports mm im ex (pre @ r1 # mid @ r2 # post) st =
        assign_ports mm im ex post (assign_entry mm im ex r2 ?S1)"
    using assign_ports_append[of mm im ex "pre @ r1 # mid" "r2 # post" st] by simp
  moreover have "assign_ports mm im ex (pre @ r1 # mid @ post) st =
        assign_ports mm im ex post ?S1"
    using assign_ports_append[of mm im ex "pre @ r1 # mid" "post" st] by simp
  ultimately show ?thesis by simp
qed

lemma r2_silent:
  assumes "considered ex r1" "mm (mac r1) = Some i" "mm (mac r2) = Some i"
    "i \<noteq> []" "mode_get im i = Some ''static access''"
  shows "assign_ports mm im ex (pre @ r1 # mid @ r2 # post) st =
         assign_ports mm im ex (pre @ r1 # mid @ post) st"
proof -
  let ?S1 = "assign_ports mm im ex (pre @ r1 # mid) st"
  have "assignable mm im ex i r1" using assms by (simp add: assignable_def)
  then have "i \<in> processed_interfaces ?S1" by (auto simp: assign_ports_processed)
  then have "assign_entry mm im ex r2 ?S1 = ?S1"
    using assign_entry_skip[of mm r2 i im "?S1" ex] assms(3,4,5) by simp
  moreover have "assign_ports mm im ex (pre @ r1 # mid @ r2 # post) st =
        assign_ports mm im ex post (assign_entry mm im ex r2 ?S1)"
    using assign_ports_append[of mm im ex "pre @ r1 # mid" "r2 # post" st] by simp
  moreover have "assign_ports mm im ex (pre @ r1 # mid @ post) st =
        assign_ports mm im ex post ?S1"
    using assign_ports_append[of mm im ex "pre @ r1 # mid" "post" st] by simp
  ultimately show ?thesis by simp
qed

lemma first_assignable:
  assumes "assignable mm im ex i r1" "\<forall>e \<in> set pre. \<not> assignable mm im ex i e"
  shows "\<exists>a b. commands (assign_ports mm im ex (pre @ r1 # rest) (start_state [])) =
            a @ assignment_pair i r1 @ b"
    and "count_list (commands (assign_ports mm im ex (pre @ r1 # rest) (start_state [])))
            (interface_cmd i) = 1"
proof -
  let ?Sp = "assign_ports mm im ex pre (start_state [])"
  let ?S' = "assign_entry mm im ex r1 ?Sp"
  have np: "i \<notin> processed_interfaces ?Sp"
    using assms(2) by (auto simp: assign_ports_processed start_state_def)
  have s': "?S' = ?Sp\<lparr>commands := commands ?Sp @ assignment_pair i r1,
             processed_interfaces := insert i (processed_interfaces ?Sp)\<rparr>"
    by (rule assign_entry_first[OF assms(1) np])
  have sp: "assign_ports mm im ex (pre @ r1 # rest) (start_state []) = assign_ports mm im ex rest ?S'"
    using assign_ports_append[of mm im ex pre "r1 # rest" "start_state []"] by simp
  obtain ext where e: "commands (assign_ports mm im ex rest ?S') = commands ?S' @ ext"
    using assign_ports_commands[of mm im ex rest ?S'] by blast
  have "commands (assign_ports mm im ex (pre @ r1 # rest) (start_state [])) =
       commands ?Sp @ assignment_pair i r1 @ ext"
    using sp e s' by simp
  then show "\<exists>a b. commands (assign_ports mm im ex (pre @ r1 # rest) (start_state [])) =
            a @ assignment_pair i r1 @ b" by blast
  have c0: "count_list (commands ?Sp) (interface_cmd i) = 0"
    using assign_ports_count[of i "start_state []" pre mm im ex] assms(2)
    by (simp add: start_state_def)
  have c1: "count_list (commands ?S') (interface_cmd i) = 1"
    using c0 s' by (simp add: assignment_pair_def cmd_distinct)
  have "i \<in> processed_interfaces ?S'" using s' by simp
  then have "count_list (commands (assign_ports mm im ex rest ?S')) (interface_cmd i) = 1"
    using assign_ports_count[of i ?S' rest mm im ex] c1 by simp
  then show "count_list (commands (assign_ports mm im ex (pre @ r1 # rest) (start_state [])))
            (interface_cmd i) = 1" using sp by simp
qed

lemma no_interface_in_creation:
  "count_list (concat (map (creation_pair names) vs)) (interface_cmd i) = 0"
proof -
  have "interface_cmd i \<notin> set (concat (map (creation_pair names) vs))"
    unfolding set_creation by (auto simp: cmd_distinct)
  then show ?thesis by (rule count_notin)
qed

subsection \<open>Keys in strict order\<close>

lemma creation_pair_explicit:
  "creation_pair names =
     (\<lambda>v. [vlan_cmd v, name_cmd (case names v of None \<Rightarrow> ''VLAN_'' @ v | Some n \<Rightarrow> n)])"
  by (rule ext) (simp add: creation_pair_def vlan_name_of_def)

lemma keys_strict:
  assumes "map f vs = map Inr ks" "distinct vs" "sorted ks"
    and "\<forall>v \<in> set vs. \<forall>w \<in> set vs. f v = f w \<longrightarrow> v = w"
  shows "sorted_wrt (<) (ks :: int list)"
proof -
  have l: "length ks = length vs" using assms(1) by (metis length_map)
  have n: "f (vs ! i) = Inr (ks ! i)" if "i < length vs" for i
    using assms(1) that l by (metis nth_map)
  have "distinct ks"
    unfolding distinct_conv_nth
  proof (intro allI impI)
    fix i j assume i: "i < length ks" and j: "j < length ks" and ij: "i \<noteq> j"
    show "ks ! i \<noteq> ks ! j"
    proof
      assume "ks ! i = ks ! j"
      then have "f (vs ! i) = f (vs ! j)" using n i j l by simp
      then have "vs ! i = vs ! j" using assms(4) i j l by simp
      then show False using assms(2) i j ij l by (simp add: distinct_conv_nth)
    qed
  qed
  then show ?thesis using assms(3) by (simp add: strict_sorted_iff)
qed

text \<open>Unfolding these evaluates the builder on concrete inputs.\<close>

lemmas build_eval =
  build_config_commands_def vlans_to_create_def set_add_def sorted_by_int_def
  py_int_def int_strip_def int_isspace_def int_max_str_digits_def int_digits_def
  py_isdigit_def digit_val_def
  vlan_name_of_def assign_entry_def mode_get_def not_found_warning_def
  not_access_notice_def mode_text_def Let_def
  vlan_cmd_def name_cmd_def interface_cmd_def access_cmd_def

lemmas created_eval = created_vlans_def py_startswith_def

section \<open>The claims about the plan builder\<close>

subsection \<open>C4: excluded VLANs\<close>

text \<open>
  Claim C4. For every legacy record whose VLAN id is in the exclusion set, the plan
  holds no VLAN-creation command (\<open>vlan <id>\<close>) and no interface-assignment command
  (\<open>switchport access vlan <id>\<close>) for that VLAN id.
\<close>

theorem C4_excluded:
  assumes "rearranges so"
    and "build_config_commands so es names existing mm im excl = Inr (cmds, out)"
    and "e \<in> set es" and "vlan e \<in> excl"
  shows "vlan_cmd (vlan e) \<notin> set cmds \<and> access_cmd (vlan e) \<notin> set cmds"
proof -
  from build_split[OF assms(2)] obtain vs ext where
    vs: "sorted_by_int (so (vlans_to_create es existing excl)) = Inr vs"
    and c: "cmds = concat (map (creation_pair names) vs) @ ext"
    and ext: "\<forall>c \<in> set ext. \<exists>e \<in> set es. \<exists>i. assignable mm im excl i e \<and>
               (c = interface_cmd i \<or> c = access_cmd (vlan e))"
    by blast
  have nv: "vlan e \<notin> set vs" using pending_set(1)[OF assms(1) vs] assms(4) by auto
  have a: "vlan_cmd (vlan e) \<notin> set (concat (map (creation_pair names) vs))"
    using nv unfolding set_creation by (auto simp: cmd_inject cmd_distinct)
  have b: "access_cmd (vlan e) \<notin> set (concat (map (creation_pair names) vs))"
    unfolding set_creation by (auto simp: cmd_inject cmd_distinct)
  have c1: "vlan_cmd (vlan e) \<notin> set ext"
    using ext by (auto simp: cmd_inject cmd_distinct)
  have c2: "access_cmd (vlan e) \<notin> set ext"
  proof
    assume "access_cmd (vlan e) \<in> set ext"
    then obtain e' i where "assignable mm im excl i e'"
      "access_cmd (vlan e) = interface_cmd i \<or> access_cmd (vlan e) = access_cmd (vlan e')"
      using ext by blast
    then have "vlan e = vlan e'" "vlan e' \<notin> excl"
      by (auto simp: assignable_def considered_def cmd_inject cmd_distinct)
    then show False using assms(4) by simp
  qed
  show ?thesis using a b c1 c2 c by simp
qed

theorem C4_excluded_witness:
  "rearranges id \<and>
   build_config_commands id
     [\<lparr>vlan = ''1100'', mac = ''0050.7966.6802'', interface = ''Gi0/1'', role = ''DATA''\<rparr>,
      \<lparr>vlan = ''1200'', mac = ''0050.7966.6803'', interface = ''Gi0/2'', role = ''VOICE''\<rparr>]
     [''1100'' \<mapsto> ''DATA'', ''1200'' \<mapsto> ''VOICE''] {''1''}
     [''0050.7966.6802'' \<mapsto> ''Gi0/2'', ''0050.7966.6803'' \<mapsto> ''Gi0/3'']
     [''Gi0/2'' \<mapsto> Some ''static access'', ''Gi0/3'' \<mapsto> Some ''static access'']
     {''1200''}
   = Inr ([''vlan 1100'', '' name DATA'', ''interface Gi0/2'',
           '' switchport access vlan 1100''], []) \<and>
   vlan_cmd ''1200'' \<notin> set [''vlan 1100'', '' name DATA'', ''interface Gi0/2'',
                          '' switchport access vlan 1100''] \<and>
   access_cmd ''1200'' \<notin> set [''vlan 1100'', '' name DATA'', ''interface Gi0/2'',
                          '' switchport access vlan 1100'']"
proof -
  let ?e2 = "\<lparr>vlan = ''1200'', mac = ''0050.7966.6803'', interface = ''Gi0/2'', role = ''VOICE''\<rparr>"
  let ?es = "[\<lparr>vlan = ''1100'', mac = ''0050.7966.6802'', interface = ''Gi0/1'', role = ''DATA''\<rparr>, ?e2]"
  have r: "rearranges id" by (simp add: rearranges_def)
  have b: "build_config_commands id ?es
     [''1100'' \<mapsto> ''DATA'', ''1200'' \<mapsto> ''VOICE''] {''1''}
     [''0050.7966.6802'' \<mapsto> ''Gi0/2'', ''0050.7966.6803'' \<mapsto> ''Gi0/3'']
     [''Gi0/2'' \<mapsto> Some ''static access'', ''Gi0/3'' \<mapsto> Some ''static access'']
     {''1200''}
   = Inr ([''vlan 1100'', '' name DATA'', ''interface Gi0/2'',
           '' switchport access vlan 1100''], [])"
    by (simp add: build_eval)
  have m: "?e2 \<in> set ?es" by simp
  have x: "vlan ?e2 \<in> {''1200''}" by simp
  from C4_excluded[OF r b m x] r b show ?thesis by simp
qed

subsection \<open>C3: ports that are not static access ports\<close>

text \<open>
  Claim C3. An interface whose operational mode is not exactly \<open>static access\<close>
  (another mode, no mode captured, or an interface the report does not know) never gets
  an \<open>interface\<close> command, whatever the records are. Every record that the port pass
  resolves (VLAN and address present, VLAN not excluded) and whose address is found on
  such an interface is skipped with one diagnostic of its own: the lines printed are those
  printed for the records before it, then its notice, then the rest of what the run
  prints without this record.
\<close>

theorem C3_not_access:
  assumes "rearranges so"
    and "build_config_commands so es names existing mm im excl = Inr (cmds, out)"
    and "mode_get im i \<noteq> Some ''static access''"
  shows "interface_cmd i \<notin> set cmds \<and>
         (\<forall>pre r post.
            es = pre @ r # post \<and> considered excl r \<and> mm (mac r) = Some i \<and> i \<noteq> [] \<longrightarrow>
            (\<exists>c1 c2 out1 out2.
               build_config_commands so pre names existing mm im excl = Inr (c1, out1) \<and>
               build_config_commands so (pre @ post) names existing mm im excl =
                 Inr (c2, out1 @ out2) \<and>
               out = out1 @ not_access_notice i (mode_get im i) # out2))"
proof -
  from build_split[OF assms(2)] obtain vs ext where
    c: "cmds = concat (map (creation_pair names) vs) @ ext"
    and e2: "out = printed (assign_ports mm im excl es (start_state []))"
    and ext: "\<forall>c \<in> set ext. \<exists>e \<in> set es. \<exists>i. assignable mm im excl i e \<and>
               (c = interface_cmd i \<or> c = access_cmd (vlan e))"
    by blast
  have a: "interface_cmd i \<notin> set (concat (map (creation_pair names) vs))"
    unfolding set_creation by (auto simp: cmd_distinct)
  have b: "interface_cmd i \<notin> set ext"
  proof
    assume "interface_cmd i \<in> set ext"
    then obtain e' j where "assignable mm im excl j e'"
      "interface_cmd i = interface_cmd j \<or> interface_cmd i = access_cmd (vlan e')"
      using ext by blast
    then have "mode_get im i = Some ''static access''"
      by (auto simp: assignable_def cmd_inject cmd_distinct)
    then show False using assms(3) by simp
  qed
  have n: "\<forall>pre r post.
            es = pre @ r # post \<and> considered excl r \<and> mm (mac r) = Some i \<and> i \<noteq> [] \<longrightarrow>
            (\<exists>c1 c2 out1 out2.
               build_config_commands so pre names existing mm im excl = Inr (c1, out1) \<and>
               build_config_commands so (pre @ post) names existing mm im excl =
                 Inr (c2, out1 @ out2) \<and>
               out = out1 @ not_access_notice i (mode_get im i) # out2)"
  proof (intro allI impI)
    fix pre r post
    assume h: "es = pre @ r # post \<and> considered excl r \<and> mm (mac r) = Some i \<and> i \<noteq> []"
    then have es: "es = pre @ r # post" and h1: "considered excl r"
      and h2: "mm (mac r) = Some i" and h3: "i \<noteq> []" by simp_all
    let ?P = "printed (assign_ports mm im excl pre (start_state []))"
    from notice_inserted[where mm = mm and i = i and pre = pre and post = post
        and st = "start_state []", OF h1 h2 h3 assms(3)]
    obtain out2 where
      o1: "printed (assign_ports mm im excl (pre @ r # post) (start_state [])) =
             ?P @ not_access_notice i (mode_get im i) # out2"
      and o2: "printed (assign_ports mm im excl (pre @ post) (start_state [])) = ?P @ out2"
      by blast
    have "set pre \<subseteq> set es" using es by auto
    from build_fewer[OF assms(1,2) this]
    obtain c1 where b1: "build_config_commands so pre names existing mm im excl = Inr (c1, ?P)"
      by blast
    have "set (pre @ post) \<subseteq> set es" using es by auto
    from build_fewer[OF assms(1,2) this]
    obtain c2 where b2: "build_config_commands so (pre @ post) names existing mm im excl =
        Inr (c2, ?P @ out2)"
      unfolding o2 by blast
    have o: "out = ?P @ not_access_notice i (mode_get im i) # out2"
      using e2 o1 es by simp
    show "\<exists>c1 c2 out1 out2.
               build_config_commands so pre names existing mm im excl = Inr (c1, out1) \<and>
               build_config_commands so (pre @ post) names existing mm im excl =
                 Inr (c2, out1 @ out2) \<and>
               out = out1 @ not_access_notice i (mode_get im i) # out2"
      by (intro exI[where x = c1] exI[where x = c2] exI[where x = "?P"] exI[where x = out2]
          conjI) (rule b1 b2 o)+
  qed
  have m: "interface_cmd i \<notin> set cmds" using a b c by simp
  show ?thesis by (intro conjI) (rule m n)+
qed

theorem C3_not_access_witness:
  "rearranges id \<and>
   build_config_commands id
     [\<lparr>vlan = ''1100'', mac = ''0050.7966.6802'', interface = ''Gi0/1'', role = ''DATA''\<rparr>,
      \<lparr>vlan = ''1200'', mac = ''0050.7966.6803'', interface = ''Gi0/2'', role = ''VOICE''\<rparr>]
     [''1100'' \<mapsto> ''DATA''] {''1''}
     [''0050.7966.6802'' \<mapsto> ''Gi0/24'', ''0050.7966.6803'' \<mapsto> ''Gi0/24'']
     [''Gi0/24'' \<mapsto> Some ''trunk'']
     {}
   = Inr ([''vlan 1100'', '' name DATA'', ''vlan 1200'', '' name VLAN_1200''],
          [''Skipping interface Gi0/24 (mode: trunk) - not a static access port.'',
           ''Skipping interface Gi0/24 (mode: trunk) - not a static access port.'']) \<and>
   mode_get [''Gi0/24'' \<mapsto> Some ''trunk''] ''Gi0/24'' = Some ''trunk'' \<and>
   considered {} \<lparr>vlan = ''1200'', mac = ''0050.7966.6803'', interface = ''Gi0/2'',
                  role = ''VOICE''\<rparr> \<and>
   interface_cmd ''Gi0/24'' \<notin>
     set [''vlan 1100'', '' name DATA'', ''vlan 1200'', '' name VLAN_1200''] \<and>
   (\<exists>c1 c2 out1 out2.
      build_config_commands id
        [\<lparr>vlan = ''1100'', mac = ''0050.7966.6802'', interface = ''Gi0/1'', role = ''DATA''\<rparr>]
        [''1100'' \<mapsto> ''DATA''] {''1''}
        [''0050.7966.6802'' \<mapsto> ''Gi0/24'', ''0050.7966.6803'' \<mapsto> ''Gi0/24'']
        [''Gi0/24'' \<mapsto> Some ''trunk''] {} = Inr (c1, out1) \<and>
      build_config_commands id
        ([\<lparr>vlan = ''1100'', mac = ''0050.7966.6802'', interface = ''Gi0/1'', role = ''DATA''\<rparr>]
         @ [])
        [''1100'' \<mapsto> ''DATA''] {''1''}
        [''0050.7966.6802'' \<mapsto> ''Gi0/24'', ''0050.7966.6803'' \<mapsto> ''Gi0/24'']
        [''Gi0/24'' \<mapsto> Some ''trunk''] {} = Inr (c2, out1 @ out2) \<and>
      [''Skipping interface Gi0/24 (mode: trunk) - not a static access port.'',
       ''Skipping interface Gi0/24 (mode: trunk) - not a static access port.''] =
        out1 @ not_access_notice ''Gi0/24'' (Some ''trunk'') # out2)"
proof -
  let ?r1 = "\<lparr>vlan = ''1100'', mac = ''0050.7966.6802'', interface = ''Gi0/1'', role = ''DATA''\<rparr>"
  let ?r2 = "\<lparr>vlan = ''1200'', mac = ''0050.7966.6803'', interface = ''Gi0/2'', role = ''VOICE''\<rparr>"
  let ?mm = "[''0050.7966.6802'' \<mapsto> ''Gi0/24'', ''0050.7966.6803'' \<mapsto> ''Gi0/24'']"
  let ?im = "[''Gi0/24'' \<mapsto> Some ''trunk'']"
  let ?cmds = "[''vlan 1100'', '' name DATA'', ''vlan 1200'', '' name VLAN_1200'']"
  let ?out = "[''Skipping interface Gi0/24 (mode: trunk) - not a static access port.'',
               ''Skipping interface Gi0/24 (mode: trunk) - not a static access port.'']"
  have r: "rearranges id" by (simp add: rearranges_def)
  have b: "build_config_commands id [?r1, ?r2] [''1100'' \<mapsto> ''DATA''] {''1''} ?mm ?im {}
     = Inr (?cmds, ?out)"
    by (simp add: build_eval)
  have m: "mode_get ?im ''Gi0/24'' \<noteq> Some ''static access''" by (simp add: mode_get_def)
  have g: "mode_get ?im ''Gi0/24'' = Some ''trunk''" by (simp add: mode_get_def)
  have k: "considered {} ?r2" by (simp add: considered_def)
  have h: "[?r1, ?r2] = [?r1] @ ?r2 # [] \<and> considered {} ?r2 \<and>
           ?mm (mac ?r2) = Some ''Gi0/24'' \<and> ''Gi0/24'' \<noteq> []"
    by (simp add: considered_def)
  note t = C3_not_access[OF r b m]
  from t have a: "interface_cmd ''Gi0/24'' \<notin> set ?cmds" by (elim conjE)
  from t have "\<forall>pre r post.
            [?r1, ?r2] = pre @ r # post \<and> considered {} r \<and> ?mm (mac r) = Some ''Gi0/24'' \<and>
            ''Gi0/24'' \<noteq> [] \<longrightarrow>
            (\<exists>c1 c2 out1 out2.
               build_config_commands id pre [''1100'' \<mapsto> ''DATA''] {''1''} ?mm ?im {} =
                 Inr (c1, out1) \<and>
               build_config_commands id (pre @ post) [''1100'' \<mapsto> ''DATA''] {''1''} ?mm ?im {} =
                 Inr (c2, out1 @ out2) \<and>
               ?out = out1 @ not_access_notice ''Gi0/24'' (mode_get ?im ''Gi0/24'') # out2)"
    by (elim conjE)
  from this[rule_format, of "[?r1]" ?r2 "[]", OF h]
  have e: "\<exists>c1 c2 out1 out2.
      build_config_commands id [?r1] [''1100'' \<mapsto> ''DATA''] {''1''} ?mm ?im {} = Inr (c1, out1) \<and>
      build_config_commands id ([?r1] @ []) [''1100'' \<mapsto> ''DATA''] {''1''} ?mm ?im {} =
        Inr (c2, out1 @ out2) \<and>
      ?out = out1 @ not_access_notice ''Gi0/24'' (Some ''trunk'') # out2"
    unfolding g .
  show ?thesis using r b g k a e by (intro conjI)
qed

subsection \<open>C5: the VLANs to create\<close>

text \<open>
  Claim C5. No VLAN of the existing set gets a creation command. The pending set holds
  exactly the VLAN ids of the records that are neither excluded nor in the existing set,
  each id once, however many records carry it; and the VLANs the plan creates are those
  of the pending set. A record has a VLAN id when its VLAN field is not empty: the first
  loop passes over a record with an empty field (\<open>if not vlan\<close>). So the ids are the
  non-empty fields, and they are all the fields when every record has an id.
\<close>

theorem C5_pending:
  assumes "rearranges so"
    and "build_config_commands so es names existing mm im excl = Inr (cmds, out)"
  shows "(\<forall>v \<in> existing. vlan_cmd v \<notin> set cmds) \<and>
         set (vlans_to_create es existing excl) =
           {v. \<exists>e \<in> set es. v = vlan e \<and> vlan e \<noteq> [] \<and> vlan e \<notin> excl \<and> vlan e \<notin> existing} \<and>
         ((\<forall>e \<in> set es. vlan e \<noteq> []) \<longrightarrow>
            set (vlans_to_create es existing excl) =
              {v. \<exists>e \<in> set es. v = vlan e \<and> vlan e \<notin> excl \<and> vlan e \<notin> existing}) \<and>
         distinct (vlans_to_create es existing excl) \<and>
         set (created_vlans cmds) = set (vlans_to_create es existing excl) \<and>
         distinct (created_vlans cmds)"
proof -
  have s: "sorted_by_int (so (vlans_to_create es existing excl)) = Inr (created_vlans cmds)"
    by (rule build_created[OF assms(2)])
  have p: "set (created_vlans cmds) =
           {v. \<exists>e \<in> set es. v = vlan e \<and> vlan e \<noteq> [] \<and> vlan e \<notin> excl \<and> vlan e \<notin> existing}"
    by (rule pending_set(1)[OF assms(1) s])
  have q: "set (vlans_to_create es existing excl) =
           {v. \<exists>e \<in> set es. v = vlan e \<and> vlan e \<noteq> [] \<and> vlan e \<notin> excl \<and> vlan e \<notin> existing}"
    by (rule vlans_to_create_set)
  have q': "(\<forall>e \<in> set es. vlan e \<noteq> []) \<longrightarrow>
            set (vlans_to_create es existing excl) =
              {v. \<exists>e \<in> set es. v = vlan e \<and> vlan e \<notin> excl \<and> vlan e \<notin> existing}"
    unfolding q by auto
  have d: "distinct (created_vlans cmds)" by (rule pending_set(2)[OF assms(1) s])
  have d': "distinct (vlans_to_create es existing excl)" by (rule vlans_to_create_distinct)
  have "\<forall>v \<in> existing. v \<notin> set (created_vlans cmds)" using p by auto
  then have e: "\<forall>v \<in> existing. vlan_cmd v \<notin> set cmds" by (simp add: created_vlans_mem)
  have pq: "set (created_vlans cmds) = set (vlans_to_create es existing excl)"
    using p q by simp
  show ?thesis by (intro conjI) (rule e q q' d' pq d)+
qed

theorem C5_pending_witness:
  "rearranges id \<and>
   build_config_commands id
     [\<lparr>vlan = ''1200'', mac = ''0050.7966.6803'', interface = ''Gi0/2'', role = ''VOICE''\<rparr>,
      \<lparr>vlan = ''1100'', mac = ''0050.7966.6802'', interface = ''Gi0/1'', role = ''DATA''\<rparr>,
      \<lparr>vlan = ''1200'', mac = ''0050.7966.6804'', interface = ''Gi0/3'', role = ''VOICE''\<rparr>,
      \<lparr>vlan = ''20'', mac = ''0050.7966.6805'', interface = ''Gi1/0'', role = ''VLAN0020''\<rparr>,
      \<lparr>vlan = ''99'', mac = ''0050.7966.6806'', interface = ''Gi1/1'', role = ''GUEST''\<rparr>]
     [''1100'' \<mapsto> ''DATA'', ''1200'' \<mapsto> ''VOICE''] {''1'', ''20''}
     Map.empty Map.empty {''99''}
   = Inr ([''vlan 1100'', '' name DATA'', ''vlan 1200'', '' name VOICE''],
          [''Warning: MAC 0050.7966.6803 not found on new switch. Skipping this entry.'',
           ''Warning: MAC 0050.7966.6802 not found on new switch. Skipping this entry.'',
           ''Warning: MAC 0050.7966.6804 not found on new switch. Skipping this entry.'',
           ''Warning: MAC 0050.7966.6805 not found on new switch. Skipping this entry.'']) \<and>
   list_all (\<lambda>e. vlan e \<noteq> [])
     [\<lparr>vlan = ''1200'', mac = ''0050.7966.6803'', interface = ''Gi0/2'', role = ''VOICE''\<rparr>,
      \<lparr>vlan = ''1100'', mac = ''0050.7966.6802'', interface = ''Gi0/1'', role = ''DATA''\<rparr>,
      \<lparr>vlan = ''1200'', mac = ''0050.7966.6804'', interface = ''Gi0/3'', role = ''VOICE''\<rparr>,
      \<lparr>vlan = ''20'', mac = ''0050.7966.6805'', interface = ''Gi1/0'', role = ''VLAN0020''\<rparr>,
      \<lparr>vlan = ''99'', mac = ''0050.7966.6806'', interface = ''Gi1/1'', role = ''GUEST''\<rparr>] \<and>
   vlans_to_create
     [\<lparr>vlan = ''1200'', mac = ''0050.7966.6803'', interface = ''Gi0/2'', role = ''VOICE''\<rparr>,
      \<lparr>vlan = ''1100'', mac = ''0050.7966.6802'', interface = ''Gi0/1'', role = ''DATA''\<rparr>,
      \<lparr>vlan = ''1200'', mac = ''0050.7966.6804'', interface = ''Gi0/3'', role = ''VOICE''\<rparr>,
      \<lparr>vlan = ''20'', mac = ''0050.7966.6805'', interface = ''Gi1/0'', role = ''VLAN0020''\<rparr>,
      \<lparr>vlan = ''99'', mac = ''0050.7966.6806'', interface = ''Gi1/1'', role = ''GUEST''\<rparr>]
     {''1'', ''20''} {''99''} = [''1200'', ''1100''] \<and>
   created_vlans [''vlan 1100'', '' name DATA'', ''vlan 1200'', '' name VOICE''] =
     [''1100'', ''1200''] \<and>
   vlan_cmd ''20'' \<notin> set [''vlan 1100'', '' name DATA'', ''vlan 1200'', '' name VOICE''] \<and>
   set (created_vlans [''vlan 1100'', '' name DATA'', ''vlan 1200'', '' name VOICE'']) =
     set [''1200'', ''1100''] \<and>
   distinct (created_vlans [''vlan 1100'', '' name DATA'', ''vlan 1200'', '' name VOICE''])"
proof -
  let ?es = "[\<lparr>vlan = ''1200'', mac = ''0050.7966.6803'', interface = ''Gi0/2'', role = ''VOICE''\<rparr>,
      \<lparr>vlan = ''1100'', mac = ''0050.7966.6802'', interface = ''Gi0/1'', role = ''DATA''\<rparr>,
      \<lparr>vlan = ''1200'', mac = ''0050.7966.6804'', interface = ''Gi0/3'', role = ''VOICE''\<rparr>,
      \<lparr>vlan = ''20'', mac = ''0050.7966.6805'', interface = ''Gi1/0'', role = ''VLAN0020''\<rparr>,
      \<lparr>vlan = ''99'', mac = ''0050.7966.6806'', interface = ''Gi1/1'', role = ''GUEST''\<rparr>]"
  let ?cmds = "[''vlan 1100'', '' name DATA'', ''vlan 1200'', '' name VOICE'']"
  have r: "rearranges id" by (simp add: rearranges_def)
  have b: "build_config_commands id ?es
     [''1100'' \<mapsto> ''DATA'', ''1200'' \<mapsto> ''VOICE''] {''1'', ''20''}
     Map.empty Map.empty {''99''}
   = Inr (?cmds,
          [''Warning: MAC 0050.7966.6803 not found on new switch. Skipping this entry.'',
           ''Warning: MAC 0050.7966.6802 not found on new switch. Skipping this entry.'',
           ''Warning: MAC 0050.7966.6804 not found on new switch. Skipping this entry.'',
           ''Warning: MAC 0050.7966.6805 not found on new switch. Skipping this entry.''])"
    by (simp add: build_eval)
  have n: "list_all (\<lambda>e. vlan e \<noteq> []) ?es" by simp
  have v: "vlans_to_create ?es {''1'', ''20''} {''99''} = [''1200'', ''1100'']"
    by (simp add: vlans_to_create_def set_add_def)
  have cv: "created_vlans ?cmds = [''1100'', ''1200'']" by (simp add: created_eval)
  note t = C5_pending[OF r b]
  from t have "\<forall>v \<in> {''1'', ''20''}. vlan_cmd v \<notin> set ?cmds" by (elim conjE)
  then have e: "vlan_cmd ''20'' \<notin> set ?cmds" by blast
  from t have "set (created_vlans ?cmds) = set (vlans_to_create ?es {''1'', ''20''} {''99''})"
    by (elim conjE)
  then have s: "set (created_vlans ?cmds) = set [''1200'', ''1100'']" unfolding v .
  from t have d: "distinct (created_vlans ?cmds)" by (elim conjE)
  show ?thesis using r b n v cv e s d by (intro conjI)
qed

subsection \<open>C6: two records on one interface\<close>

text \<open>
  Claim C6. Two records \<open>r1\<close> (earlier) and \<open>r2\<close> (later) whose addresses are
  found on the same interface \<open>i\<close> of the new switch, \<open>r1\<close> being processed by the
  second loop (it passes the loop's first test). Then \<open>r2\<close> adds no command: the
  commands after the creation part are those of the run without \<open>r2\<close>. When \<open>i\<close>
  is a static access port (so already assigned when \<open>r2\<close> comes), \<open>r2\<close> prints
  nothing either. And when \<open>r1\<close> is the first record assignable to \<open>i\<close>, the plan
  has exactly one \<open>interface i\<close> command, followed by the VLAN of \<open>r1\<close>.
\<close>

theorem C6_first_record_wins:
  assumes "build_config_commands so (pre @ r1 # mid @ r2 # post) names existing mm im excl
             = Inr (cmds, out)"
    and "considered excl r1" and "mm (mac r1) = Some i" and "mm (mac r2) = Some i"
  shows "(\<exists>created. cmds = created @
            commands (assign_ports mm im excl (pre @ r1 # mid @ post) (start_state []))) \<and>
         (i \<noteq> [] \<and> mode_get im i = Some ''static access'' \<longrightarrow>
            out = printed (assign_ports mm im excl (pre @ r1 # mid @ post) (start_state []))) \<and>
         (assignable mm im excl i r1 \<and> (\<forall>e \<in> set pre. \<not> assignable mm im excl i e) \<longrightarrow>
            count_list cmds (interface_cmd i) = 1 \<and>
            (\<exists>a b. cmds = a @ assignment_pair i r1 @ b))"
proof -
  let ?es = "pre @ r1 # mid @ r2 # post"
  from build_split[OF assms(1)] obtain vs ext where
    c: "cmds = concat (map (creation_pair names) vs) @ ext"
    and e1: "ext = commands (assign_ports mm im excl ?es (start_state []))"
    and e2: "out = printed (assign_ports mm im excl ?es (start_state []))"
    by blast
  have p1: "\<exists>created. cmds = created @
            commands (assign_ports mm im excl (pre @ r1 # mid @ post) (start_state []))"
  proof -
    have "ext = commands (assign_ports mm im excl (pre @ r1 # mid @ post) (start_state []))"
      unfolding e1 by (rule r2_no_command[OF assms(2,3,4)])
    then have "cmds = concat (map (creation_pair names) vs) @
            commands (assign_ports mm im excl (pre @ r1 # mid @ post) (start_state []))"
      using c by (simp only:)
    then show ?thesis ..
  qed
  have p2: "i \<noteq> [] \<and> mode_get im i = Some ''static access'' \<longrightarrow>
            out = printed (assign_ports mm im excl (pre @ r1 # mid @ post) (start_state []))"
  proof (intro impI, elim conjE)
    assume a: "i \<noteq> []" "mode_get im i = Some ''static access''"
    show "out = printed (assign_ports mm im excl (pre @ r1 # mid @ post) (start_state []))"
      unfolding e2 by (simp only: r2_silent[OF assms(2,3,4) a])
  qed
  have p3: "assignable mm im excl i r1 \<and> (\<forall>e \<in> set pre. \<not> assignable mm im excl i e) \<longrightarrow>
            count_list cmds (interface_cmd i) = 1 \<and>
            (\<exists>a b. cmds = a @ assignment_pair i r1 @ b)"
  proof (intro impI, elim conjE)
    assume h: "assignable mm im excl i r1" "\<forall>e \<in> set pre. \<not> assignable mm im excl i e"
    have z: "count_list (concat (map (creation_pair names) vs)) (interface_cmd i) = 0"
      by (rule no_interface_in_creation)
    have "count_list ext (interface_cmd i) = 1"
      unfolding e1 by (rule first_assignable(2)[OF h])
    then have k: "count_list cmds (interface_cmd i) = 1"
      unfolding c using z by simp
    obtain a b where "ext = a @ assignment_pair i r1 @ b"
      unfolding e1 using first_assignable(1)[OF h, of "mid @ r2 # post"] by (elim exE)
    then have "cmds = (concat (map (creation_pair names) vs) @ a) @ assignment_pair i r1 @ b"
      unfolding c by simp
    then have "\<exists>a b. cmds = a @ assignment_pair i r1 @ b" by (intro exI)
    then show "count_list cmds (interface_cmd i) = 1 \<and>
            (\<exists>a b. cmds = a @ assignment_pair i r1 @ b)" using k by (intro conjI)
  qed
  show ?thesis by (intro conjI) (rule p1 p2 p3)+
qed

theorem C6_first_record_wins_witness:
  "build_config_commands id
     ([] @ \<lparr>vlan = ''1100'', mac = ''0050.7966.6802'', interface = ''Gi0/1'', role = ''DATA''\<rparr> #
      [] @ \<lparr>vlan = ''1200'', mac = ''0050.7966.6803'', interface = ''Gi0/2'', role = ''VOICE''\<rparr> # [])
     [''1100'' \<mapsto> ''DATA'', ''1200'' \<mapsto> ''VOICE''] {''1''}
     [''0050.7966.6802'' \<mapsto> ''Gi0/2'', ''0050.7966.6803'' \<mapsto> ''Gi0/2'']
     [''Gi0/2'' \<mapsto> Some ''static access'']
     {}
   = Inr ([''vlan 1100'', '' name DATA'', ''vlan 1200'', '' name VOICE'',
           ''interface Gi0/2'', '' switchport access vlan 1100''], []) \<and>
   count_list [''vlan 1100'', '' name DATA'', ''vlan 1200'', '' name VOICE'',
           ''interface Gi0/2'', '' switchport access vlan 1100''] (interface_cmd ''Gi0/2'') = 1 \<and>
   [] = printed (assign_ports
          [''0050.7966.6802'' \<mapsto> ''Gi0/2'', ''0050.7966.6803'' \<mapsto> ''Gi0/2'']
          [''Gi0/2'' \<mapsto> Some ''static access''] {}
          ([] @ \<lparr>vlan = ''1100'', mac = ''0050.7966.6802'', interface = ''Gi0/1'',
                   role = ''DATA''\<rparr> # [] @ [])
          (start_state []))"
proof -
  let ?r1 = "\<lparr>vlan = ''1100'', mac = ''0050.7966.6802'', interface = ''Gi0/1'', role = ''DATA''\<rparr>"
  let ?r2 = "\<lparr>vlan = ''1200'', mac = ''0050.7966.6803'', interface = ''Gi0/2'', role = ''VOICE''\<rparr>"
  let ?mm = "[''0050.7966.6802'' \<mapsto> ''Gi0/2'', ''0050.7966.6803'' \<mapsto> ''Gi0/2'']"
  let ?im = "[''Gi0/2'' \<mapsto> Some ''static access'']"
  let ?cmds = "[''vlan 1100'', '' name DATA'', ''vlan 1200'', '' name VOICE'',
           ''interface Gi0/2'', '' switchport access vlan 1100'']"
  have b: "build_config_commands id ([] @ ?r1 # [] @ ?r2 # [])
     [''1100'' \<mapsto> ''DATA'', ''1200'' \<mapsto> ''VOICE''] {''1''} ?mm ?im {}
   = Inr (?cmds, [])"
    by (simp add: build_eval)
  have c: "considered {} ?r1" by (simp add: considered_def)
  have m1: "?mm (mac ?r1) = Some ''Gi0/2''" by simp
  have m2: "?mm (mac ?r2) = Some ''Gi0/2''" by simp
  have a: "assignable ?mm ?im {} ''Gi0/2'' ?r1 \<and>
           (\<forall>e \<in> set []. \<not> assignable ?mm ?im {} ''Gi0/2'' e)"
    by (simp add: assignable_def considered_def mode_get_def)
  have s: "''Gi0/2'' \<noteq> [] \<and> mode_get ?im ''Gi0/2'' = Some ''static access''"
    by (simp add: mode_get_def)
  note t = C6_first_record_wins[OF b c m1 m2]
  from t a have k: "count_list ?cmds (interface_cmd ''Gi0/2'') = 1" by blast
  from t s have p: "[] = printed (assign_ports ?mm ?im {} ([] @ ?r1 # [] @ []) (start_state []))"
    by blast
  show ?thesis using b k p by (intro conjI)
qed

subsection \<open>C7: the order of the creation commands\<close>

text \<open>
  Claim C7 says the creation commands come in strictly ascending numeric order. The sort
  key is \<open>int(x)\<close>, and two different strings can have the same key: with the ids
  \<open>7\<close> and \<open>07\<close> pending, both VLANs are created, one after the other, with equal
  numbers.
\<close>

theorem C7_counterexample:
  "build_config_commands id
     [\<lparr>vlan = ''7'', mac = ''0050.7966.6802'', interface = ''Gi0/1'', role = ''DATA''\<rparr>,
      \<lparr>vlan = ''07'', mac = ''0050.7966.6803'', interface = ''Gi0/2'', role = ''VOICE''\<rparr>]
     [''7'' \<mapsto> ''DATA''] {''1''}
     [''0050.7966.6802'' \<mapsto> ''Gi0/2'', ''0050.7966.6803'' \<mapsto> ''Gi0/3'']
     [''Gi0/2'' \<mapsto> Some ''static access'', ''Gi0/3'' \<mapsto> Some ''static access'']
     {}
   = Inr ([''vlan 7'', '' name DATA'', ''vlan 07'', '' name VLAN_07'',
           ''interface Gi0/2'', '' switchport access vlan 7'',
           ''interface Gi0/3'', '' switchport access vlan 07''], []) \<and>
   created_vlans [''vlan 7'', '' name DATA'', ''vlan 07'', '' name VLAN_07'',
           ''interface Gi0/2'', '' switchport access vlan 7'',
           ''interface Gi0/3'', '' switchport access vlan 07''] = [''7'', ''07''] \<and>
   map py_int [''7'', ''07''] = [Inr 7, Inr 7] \<and>
   \<not> sorted_wrt (<) [7, 7 :: int]"
  by (simp add: build_eval created_eval)

text \<open>
  Claim C7 as amended. A plan is the creation part followed by interface and assignment
  commands only. The creation part is one pair per created VLAN: \<open>vlan <id>\<close>, then
  \<open>name\<close> with the catalog's name or \<open>VLAN_<id>\<close> when the catalog has none. The
  integer values of the ids ascend (numerically; equal values may follow each other), and
  strictly so when no two created ids have the same integer value.
\<close>

theorem C7_creation_order:
  assumes "rearranges so"
    and "build_config_commands so es names existing mm im excl = Inr (cmds, out)"
  shows "\<exists>ks rest.
           cmds = concat (map (\<lambda>v. [vlan_cmd v,
                                     name_cmd (case names v of None \<Rightarrow> ''VLAN_'' @ v
                                               | Some n \<Rightarrow> n)])
                              (created_vlans cmds)) @ rest \<and>
           (\<forall>c \<in> set rest. (\<exists>i. c = interface_cmd i) \<or> (\<exists>v. c = access_cmd v)) \<and>
           map py_int (created_vlans cmds) = map Inr ks \<and> sorted ks \<and>
           ((\<forall>v \<in> set (created_vlans cmds). \<forall>w \<in> set (created_vlans cmds).
                py_int v = py_int w \<longrightarrow> v = w) \<longrightarrow> sorted_wrt (<) ks)"
proof -
  have s: "sorted_by_int (so (vlans_to_create es existing excl)) = Inr (created_vlans cmds)"
    by (rule build_created[OF assms(2)])
  from build_split[OF assms(2)] obtain vs rest where
    vs: "sorted_by_int (so (vlans_to_create es existing excl)) = Inr vs"
    and c: "cmds = concat (map (creation_pair names) vs) @ rest"
    and ext: "\<forall>c \<in> set rest. \<exists>e \<in> set es. \<exists>i. assignable mm im excl i e \<and>
               (c = interface_cmd i \<or> c = access_cmd (vlan e))"
    by blast
  have vs': "vs = created_vlans cmds" using vs s by simp
  have c': "cmds = concat (map (\<lambda>v. [vlan_cmd v,
                                     name_cmd (case names v of None \<Rightarrow> ''VLAN_'' @ v
                                               | Some n \<Rightarrow> n)])
                              (created_vlans cmds)) @ rest"
    by (rule c[unfolded vs' creation_pair_explicit])
  have r: "\<forall>c \<in> set rest. (\<exists>i. c = interface_cmd i) \<or> (\<exists>v. c = access_cmd v)"
    using ext by blast
  obtain ks where k: "map py_int (created_vlans cmds) = map Inr ks" "sorted ks"
    using sorted_by_int_keys[OF s] by blast
  have d: "distinct (created_vlans cmds)" by (rule pending_set(2)[OF assms(1) s])
  have st: "(\<forall>v \<in> set (created_vlans cmds). \<forall>w \<in> set (created_vlans cmds).
                py_int v = py_int w \<longrightarrow> v = w) \<longrightarrow> sorted_wrt (<) ks"
    using keys_strict[OF k(1) d k(2)] by blast
  show ?thesis
    by (intro exI[where x = ks] exI[where x = rest] conjI) (rule c' r k st)+
qed

theorem C7_creation_order_witness:
  "rearranges id \<and>
   build_config_commands id
     [\<lparr>vlan = ''1100'', mac = ''0050.7966.6802'', interface = ''Gi0/1'', role = ''DATA''\<rparr>,
      \<lparr>vlan = ''20'', mac = ''0050.7966.6803'', interface = ''Gi0/2'', role = ''VLAN0020''\<rparr>,
      \<lparr>vlan = ''100'', mac = ''0050.7966.6804'', interface = ''Gi0/3'', role = ''VLAN0100''\<rparr>]
     [''1100'' \<mapsto> ''DATA'', ''20'' \<mapsto> ''VLAN0020''] {''1''}
     [''0050.7966.6802'' \<mapsto> ''Gi0/2'']
     [''Gi0/2'' \<mapsto> Some ''static access'']
     {}
   = Inr ([''vlan 20'', '' name VLAN0020'', ''vlan 100'', '' name VLAN_100'',
           ''vlan 1100'', '' name DATA'',
           ''interface Gi0/2'', '' switchport access vlan 1100''],
          [''Warning: MAC 0050.7966.6803 not found on new switch. Skipping this entry.'',
           ''Warning: MAC 0050.7966.6804 not found on new switch. Skipping this entry.'']) \<and>
   created_vlans [''vlan 20'', '' name VLAN0020'', ''vlan 100'', '' name VLAN_100'',
           ''vlan 1100'', '' name DATA'',
           ''interface Gi0/2'', '' switchport access vlan 1100''] = [''20'', ''100'', ''1100''] \<and>
   (\<exists>ks. map py_int [''20'', ''100'', ''1100''] = map Inr ks \<and> sorted_wrt (<) ks)"
proof -
  let ?es = "[\<lparr>vlan = ''1100'', mac = ''0050.7966.6802'', interface = ''Gi0/1'', role = ''DATA''\<rparr>,
      \<lparr>vlan = ''20'', mac = ''0050.7966.6803'', interface = ''Gi0/2'', role = ''VLAN0020''\<rparr>,
      \<lparr>vlan = ''100'', mac = ''0050.7966.6804'', interface = ''Gi0/3'', role = ''VLAN0100''\<rparr>]"
  let ?cmds = "[''vlan 20'', '' name VLAN0020'', ''vlan 100'', '' name VLAN_100'',
           ''vlan 1100'', '' name DATA'',
           ''interface Gi0/2'', '' switchport access vlan 1100'']"
  have r: "rearranges id" by (simp add: rearranges_def)
  have b: "build_config_commands id ?es
     [''1100'' \<mapsto> ''DATA'', ''20'' \<mapsto> ''VLAN0020''] {''1''}
     [''0050.7966.6802'' \<mapsto> ''Gi0/2'']
     [''Gi0/2'' \<mapsto> Some ''static access'']
     {}
   = Inr (?cmds,
          [''Warning: MAC 0050.7966.6803 not found on new switch. Skipping this entry.'',
           ''Warning: MAC 0050.7966.6804 not found on new switch. Skipping this entry.''])"
    by (simp add: build_eval)
  have cv: "created_vlans ?cmds = [''20'', ''100'', ''1100'']"
    by (simp add: created_eval)
  have i: "\<forall>v \<in> set [''20'', ''100'', ''1100'']. \<forall>w \<in> set [''20'', ''100'', ''1100''].
             py_int v = py_int w \<longrightarrow> v = w"
    by (simp add: build_eval)
  from C7_creation_order[OF r b] obtain ks where
    "map py_int (created_vlans ?cmds) = map Inr ks"
    "(\<forall>v \<in> set (created_vlans ?cmds). \<forall>w \<in> set (created_vlans ?cmds).
                py_int v = py_int w \<longrightarrow> v = w) \<longrightarrow> sorted_wrt (<) ks"
    by blast
  then have "map py_int [''20'', ''100'', ''1100''] = map Inr ks \<and> sorted_wrt (<) ks"
    using i unfolding cv by blast
  then have "\<exists>ks. map py_int [''20'', ''100'', ''1100''] = map Inr ks \<and> sorted_wrt (<) ks" ..
  then show ?thesis using r b cv by (intro conjI)
qed

subsection \<open>C8: running the builder again\<close>

text \<open>
  Claim C8. After a run that returned a plan, a second run on the same records with the
  existing VLANs extended by the VLANs that plan creates has an empty pending set and
  returns a plan without creation commands: the first plan minus its creation part, with
  the same printed lines.
\<close>

theorem C8_round_trip:
  assumes "rearranges so"
    and "build_config_commands so es names existing mm im excl = Inr (cmds, out)"
  shows "vlans_to_create es (existing \<union> set (created_vlans cmds)) excl = [] \<and>
         (\<exists>cmds2. build_config_commands so es names (existing \<union> set (created_vlans cmds)) mm im excl
                     = Inr (cmds2, out) \<and>
                   created_vlans cmds2 = [] \<and>
                   cmds = concat (map (creation_pair names) (created_vlans cmds)) @ cmds2)"
proof -
  let ?ex2 = "existing \<union> set (created_vlans cmds)"
  have s: "sorted_by_int (so (vlans_to_create es existing excl)) = Inr (created_vlans cmds)"
    by (rule build_created[OF assms(2)])
  have p: "set (created_vlans cmds) =
           {v. \<exists>e \<in> set es. v = vlan e \<and> vlan e \<noteq> [] \<and> vlan e \<notin> excl \<and> vlan e \<notin> existing}"
    by (rule pending_set(1)[OF assms(1) s])
  have "set (vlans_to_create es ?ex2 excl) = {}"
    unfolding vlans_to_create_set using p by auto
  then have v: "vlans_to_create es ?ex2 excl = []" by simp
  from build_split[OF assms(2)] obtain vs ext where
    vs: "sorted_by_int (so (vlans_to_create es existing excl)) = Inr vs"
    and c: "cmds = concat (map (creation_pair names) vs) @ ext"
    and e1: "ext = commands (assign_ports mm im excl es (start_state []))"
    and e2: "out = printed (assign_ports mm im excl es (start_state []))"
    and ext: "\<forall>c \<in> set ext. \<exists>e \<in> set es. \<exists>i. assignable mm im excl i e \<and>
               (c = interface_cmd i \<or> c = access_cmd (vlan e))"
    by blast
  have vs': "vs = created_vlans cmds" using vs s by simp
  have b2: "build_config_commands so es names ?ex2 mm im excl = Inr (ext, out)"
    using v e1 e2 rearranges_Nil[OF assms(1)]
    by (simp add: build_config_commands_def sorted_by_int_Nil start_state_def Let_def)
  have c': "cmds = concat (map (creation_pair names) (created_vlans cmds)) @ ext"
    by (rule c[unfolded vs'])
  have n: "created_vlans ext = []" by (rule created_vlans_ports[OF ext])
  show ?thesis
    by (intro conjI exI[where x = ext]) (rule v b2 n c')+
qed

theorem C8_round_trip_witness:
  "rearranges id \<and>
   build_config_commands id
     [\<lparr>vlan = ''1100'', mac = ''0050.7966.6802'', interface = ''Gi0/1'', role = ''DATA''\<rparr>,
      \<lparr>vlan = ''1200'', mac = ''0050.7966.6803'', interface = ''Gi0/2'', role = ''VOICE''\<rparr>]
     [''1100'' \<mapsto> ''DATA''] {''1''}
     [''0050.7966.6802'' \<mapsto> ''Gi0/2'']
     [''Gi0/2'' \<mapsto> Some ''static access'']
     {}
   = Inr ([''vlan 1100'', '' name DATA'', ''vlan 1200'', '' name VLAN_1200'',
           ''interface Gi0/2'', '' switchport access vlan 1100''],
          [''Warning: MAC 0050.7966.6803 not found on new switch. Skipping this entry.'']) \<and>
   vlans_to_create
     [\<lparr>vlan = ''1100'', mac = ''0050.7966.6802'', interface = ''Gi0/1'', role = ''DATA''\<rparr>,
      \<lparr>vlan = ''1200'', mac = ''0050.7966.6803'', interface = ''Gi0/2'', role = ''VOICE''\<rparr>]
     ({''1''} \<union> set (created_vlans
        [''vlan 1100'', '' name DATA'', ''vlan 1200'', '' name VLAN_1200'',
         ''interface Gi0/2'', '' switchport access vlan 1100''])) {} = []"
proof -
  let ?es = "[\<lparr>vlan = ''1100'', mac = ''0050.7966.6802'', interface = ''Gi0/1'', role = ''DATA''\<rparr>,
      \<lparr>vlan = ''1200'', mac = ''0050.7966.6803'', interface = ''Gi0/2'', role = ''VOICE''\<rparr>]"
  have r: "rearranges id" by (simp add: rearranges_def)
  have b: "build_config_commands id ?es
     [''1100'' \<mapsto> ''DATA''] {''1''}
     [''0050.7966.6802'' \<mapsto> ''Gi0/2'']
     [''Gi0/2'' \<mapsto> Some ''static access'']
     {}
   = Inr ([''vlan 1100'', '' name DATA'', ''vlan 1200'', '' name VLAN_1200'',
           ''interface Gi0/2'', '' switchport access vlan 1100''],
          [''Warning: MAC 0050.7966.6803 not found on new switch. Skipping this entry.''])"
    by (simp add: build_eval)
  from C8_round_trip[OF r b] have
    "vlans_to_create ?es
     ({''1''} \<union> set (created_vlans
        [''vlan 1100'', '' name DATA'', ''vlan 1200'', '' name VLAN_1200'',
         ''interface Gi0/2'', '' switchport access vlan 1100''])) {} = []"
    by (rule conjunct1)
  then show ?thesis using r b by (simp only: simp_thms)
qed

subsection \<open>C10: the integer key and the digits of a VLAN field\<close>




section \<open>The claims about the MAC correlation index\<close>

subsection \<open>The two loops store row after row\<close>

lemma new_switch_loop_append:
  "new_switch_loop (xs @ ys) m = new_switch_loop ys (new_switch_loop xs m)"
  by (induction xs arbitrary: m) auto

lemma new_switch_loop_other:
  "\<forall>l \<in> set ls. \<forall>i. new_switch_row l \<noteq> Some (k, i) \<Longrightarrow> new_switch_loop ls m k = m k"
proof (induction ls arbitrary: m)
  case Nil show ?case by simp
next
  case (Cons l ls)
  then show ?case by (cases "new_switch_row l") auto
qed

lemma new_switch_loop_last:
  assumes "new_switch_row l = Some (k, i)"
    and "\<forall>l' \<in> set post. \<forall>i'. new_switch_row l' \<noteq> Some (k, i')"
  shows "new_switch_loop (pre @ l # post) m k = Some i"
  using assms by (simp add: new_switch_loop_append new_switch_loop_other)

lemma mac_to_if_loop_append:
  "mac_to_if_loop (xs @ ys) m = mac_to_if_loop ys (mac_to_if_loop xs m)"
  by (induction xs arbitrary: m) auto

lemma mac_to_if_loop_other:
  "\<forall>l \<in> set ls. \<forall>i. profile_row l \<noteq> Some (k, i) \<Longrightarrow> mac_to_if_loop ls m k = m k"
proof (induction ls arbitrary: m)
  case Nil show ?case by simp
next
  case (Cons l ls)
  then show ?case by (cases "profile_row l") auto
qed

lemma mac_to_if_loop_last:
  assumes "profile_row l = Some (k, i)"
    and "\<forall>l' \<in> set post. \<forall>i'. profile_row l' \<noteq> Some (k, i')"
  shows "mac_to_if_loop (pre @ l # post) m k = Some i"
  using assms by (simp add: mac_to_if_loop_append mac_to_if_loop_other)

subsection \<open>C1: an address that occurs in two rows\<close>

text \<open>
  Claim C1 says the first row of an address wins. Both functions store every row with a
  plain assignment (\<open>mac_map[mac] = interface\<close>, \<open>mac_to_if[mac] = parts[-1]\<close>), so
  a later row of the same address replaces the earlier one: here the address is seen on
  \<open>Gi0/2\<close> first and on \<open>Gi0/3\<close> second, and the lookup gives \<open>Gi0/3\<close>.
\<close>

theorem C1_counterexample:
  "parse_new_switch_mac_table
     (''   1    0050.7966.6802    DYNAMIC     Gi0/2'' @ [CHR 0x0A] @
      ''   1    0050.7966.6802    DYNAMIC     Gi0/3'') ''0050.7966.6802'' = Some ''Gi0/3'' \<and>
   get_mac_to_interface
     (''   1    0050.7966.6802    DYNAMIC     Gi0/2'' @ [CHR 0x0A] @
      ''   1    0050.7966.6802    DYNAMIC     Gi0/3'') ''00:50:79:66:68:02'' = Some ''Gi0/3'' \<and>
   ''Gi0/3'' \<noteq> ''Gi0/2''"
  by code_simp

text \<open>
  Claim C1 as amended. When the rows of an address \<open>m\<close> include \<open>l1\<close> and, later,
  \<open>l2\<close>, and no row after \<open>l2\<close> has that address, the lookup of \<open>m\<close> returns the
  interface of \<open>l2\<close>, the last one stored; this holds for
  \<open>parse_new_switch_mac_table\<close> and for \<open>get_mac_to_interface\<close>. The index is a
  map, so it holds one interface per address, and neither function can fail.
\<close>

theorem C1_last_wins:
  "(py_splitlines output = pre @ l1 # mid @ l2 # post \<and>
    new_switch_row l1 = Some (m, i1) \<and> new_switch_row l2 = Some (m, i2) \<and>
    (\<forall>l \<in> set post. \<forall>i. new_switch_row l \<noteq> Some (m, i))
    \<longrightarrow> parse_new_switch_mac_table output m = Some i2) \<and>
   (py_splitlines output = pre @ l1 # mid @ l2 # post \<and>
    profile_row l1 = Some (m, i1) \<and> profile_row l2 = Some (m, i2) \<and>
    (\<forall>l \<in> set post. \<forall>i. profile_row l \<noteq> Some (m, i))
    \<longrightarrow> get_mac_to_interface output m = Some i2)"
proof (intro conjI impI)
  assume a: "py_splitlines output = pre @ l1 # mid @ l2 # post \<and>
    new_switch_row l1 = Some (m, i1) \<and> new_switch_row l2 = Some (m, i2) \<and>
    (\<forall>l \<in> set post. \<forall>i. new_switch_row l \<noteq> Some (m, i))"
  then have "new_switch_loop ((pre @ l1 # mid) @ l2 # post) Map.empty m = Some i2"
    by (intro new_switch_loop_last) simp_all
  then show "parse_new_switch_mac_table output m = Some i2"
    using a by (simp add: parse_new_switch_mac_table_def)
next
  assume a: "py_splitlines output = pre @ l1 # mid @ l2 # post \<and>
    profile_row l1 = Some (m, i1) \<and> profile_row l2 = Some (m, i2) \<and>
    (\<forall>l \<in> set post. \<forall>i. profile_row l \<noteq> Some (m, i))"
  then have "mac_to_if_loop ((pre @ l1 # mid) @ l2 # post) Map.empty m = Some i2"
    by (intro mac_to_if_loop_last) simp_all
  then show "get_mac_to_interface output m = Some i2"
    using a by (simp add: get_mac_to_interface_def)
qed

theorem C1_last_wins_witness:
  "py_splitlines
     (''   1    0050.7966.6802    DYNAMIC     Gi0/2'' @ [CHR 0x0A] @
      ''   1    0050.7966.6802    DYNAMIC     Gi0/3'') =
     [] @ ''   1    0050.7966.6802    DYNAMIC     Gi0/2'' #
     [] @ ''   1    0050.7966.6802    DYNAMIC     Gi0/3'' # [] \<and>
   new_switch_row ''   1    0050.7966.6802    DYNAMIC     Gi0/2'' =
     Some (''0050.7966.6802'', ''Gi0/2'') \<and>
   new_switch_row ''   1    0050.7966.6802    DYNAMIC     Gi0/3'' =
     Some (''0050.7966.6802'', ''Gi0/3'') \<and>
   parse_new_switch_mac_table
     (''   1    0050.7966.6802    DYNAMIC     Gi0/2'' @ [CHR 0x0A] @
      ''   1    0050.7966.6802    DYNAMIC     Gi0/3'') ''0050.7966.6802'' = Some ''Gi0/3'' \<and>
   profile_row ''   1    0050.7966.6802    DYNAMIC     Gi0/2'' =
     Some (''00:50:79:66:68:02'', ''Gi0/2'') \<and>
   profile_row ''   1    0050.7966.6802    DYNAMIC     Gi0/3'' =
     Some (''00:50:79:66:68:02'', ''Gi0/3'') \<and>
   get_mac_to_interface
     (''   1    0050.7966.6802    DYNAMIC     Gi0/2'' @ [CHR 0x0A] @
      ''   1    0050.7966.6802    DYNAMIC     Gi0/3'') ''00:50:79:66:68:02'' = Some ''Gi0/3''"
proof -
  let ?l1 = "''   1    0050.7966.6802    DYNAMIC     Gi0/2''"
  let ?l2 = "''   1    0050.7966.6802    DYNAMIC     Gi0/3''"
  let ?out = "?l1 @ [CHR 0x0A] @ ?l2"
  have s: "py_splitlines ?out = [] @ ?l1 # [] @ ?l2 # []" by code_simp
  have n1: "new_switch_row ?l1 = Some (''0050.7966.6802'', ''Gi0/2'')" by code_simp
  have n2: "new_switch_row ?l2 = Some (''0050.7966.6802'', ''Gi0/3'')" by code_simp
  have p1: "profile_row ?l1 = Some (''00:50:79:66:68:02'', ''Gi0/2'')" by code_simp
  have p2: "profile_row ?l2 = Some (''00:50:79:66:68:02'', ''Gi0/3'')" by code_simp
  have e1: "\<forall>l \<in> set []. \<forall>i. new_switch_row l \<noteq> Some (''0050.7966.6802'', i)" by simp
  have e2: "\<forall>l \<in> set []. \<forall>i. profile_row l \<noteq> Some (''00:50:79:66:68:02'', i)" by simp
  have a: "parse_new_switch_mac_table ?out ''0050.7966.6802'' = Some ''Gi0/3''"
    using C1_last_wins[of ?out "[]" ?l1 "[]" ?l2 "[]" "''0050.7966.6802''" "''Gi0/2''" "''Gi0/3''",
        THEN conjunct1] s n1 n2 e1 by blast
  have b: "get_mac_to_interface ?out ''00:50:79:66:68:02'' = Some ''Gi0/3''"
    using C1_last_wins[of ?out "[]" ?l1 "[]" ?l2 "[]" "''00:50:79:66:68:02''" "''Gi0/2''" "''Gi0/3''",
        THEN conjunct2] s p1 p2 e2 by blast
  show ?thesis using s n1 n2 a p1 p2 b by (intro conjI)
qed

subsection \<open>Columns of a row\<close>

lemma split_token:
  "token x \<Longrightarrow> py_split_acc cur (x @ rest) = py_split_acc (cur @ x) rest"
  unfolding token_def
proof (induction x arbitrary: cur)
  case Nil then show ?case by simp
next
  case (Cons c x)
  show ?case
  proof (cases "x = []")
    case True then show ?thesis using Cons.prems by simp
  next
    case False
    then show ?thesis using Cons.IH[of "cur @ [c]"] Cons.prems by simp
  qed
qed

lemma split_blank: "blank w \<Longrightarrow> py_split_acc [] (w @ rest) = py_split_acc [] rest"
  unfolding blank_def by (induction w) auto

lemma split_gap:
  "gap w \<Longrightarrow> cur \<noteq> [] \<Longrightarrow> py_split_acc cur (w @ rest) = cur # py_split_acc [] rest"
  unfolding gap_def
  by (cases w) (auto simp: split_blank[unfolded blank_def])

lemma split_row:
  assumes "token n" "gap w1" "token b" "gap w2" "token t" "gap w3" "token p"
  shows "py_split (n @ w1 @ b @ w2 @ t @ w3 @ p) = [n, b, t, p]"
proof -
  have ne: "n \<noteq> []" "b \<noteq> []" "t \<noteq> []" "p \<noteq> []" using assms by (auto simp: token_def)
  have "py_split_acc [] (p @ []) = py_split_acc ([] @ p) []" by (rule split_token[OF assms(7)])
  then have 4: "py_split_acc [] p = [p]" using ne by simp
  have 3: "py_split_acc [] (t @ w3 @ p) = [t, p]"
    using split_token[OF assms(5), of "[]" "w3 @ p"] split_gap[OF assms(6), of t p] ne 4 by simp
  have 2: "py_split_acc [] (b @ w2 @ t @ w3 @ p) = [b, t, p]"
    using split_token[OF assms(3), of "[]" "w2 @ t @ w3 @ p"]
      split_gap[OF assms(4), of b "t @ w3 @ p"] ne 3 by simp
  have 1: "py_split_acc [] (n @ w1 @ b @ w2 @ t @ w3 @ p) = [n, b, t, p]"
    using split_token[OF assms(1), of "[]" "w1 @ b @ w2 @ t @ w3 @ p"]
      split_gap[OF assms(2), of n "b @ w2 @ t @ w3 @ p"] ne 2 by simp
  show ?thesis using 1 by (simp add: py_split_def)
qed

lemma strip_blanks:
  assumes "blank w0" "blank w4" "x \<noteq> []" "\<not> py_isspace (hd x)" "\<not> py_isspace (last x)"
  shows "py_strip (w0 @ x @ w4) = x"
proof -
  have a: "dropWhile py_isspace (w0 @ x @ w4) = x @ w4"
  proof -
    have "dropWhile py_isspace (w0 @ x @ w4) = dropWhile py_isspace (x @ w4)"
      using assms(1) by (intro dropWhile_append2) (simp add: blank_def list_all_iff)
    also have "\<dots> = x @ w4" using assms(3,4) by (cases x) auto
    finally show ?thesis .
  qed
  have "dropWhile py_isspace (rev (x @ w4)) = dropWhile py_isspace (rev w4 @ rev x)" by simp
  also have "\<dots> = dropWhile py_isspace (rev x)"
    using assms(2) by (intro dropWhile_append2) (simp add: blank_def list_all_iff)
  also have "\<dots> = rev x"
    using assms(3,5) by (cases "rev x") (auto simp: hd_rev[symmetric])
  finally show ?thesis by (simp add: py_strip_def a)
qed

lemma token_ends:
  assumes "token x"
  shows "x \<noteq> []" "\<not> py_isspace (hd x)" "\<not> py_isspace (last x)"
  using assms by (auto simp: token_def list_all_iff)

lemma new_switch_row_shape:
  assumes "blank w0" "token n" "py_isdigit (hd n)" "gap w1" "token b" "gap w2" "token t"
    "gap w3" "token p" "blank w4"
  shows "new_switch_row (w0 @ n @ w1 @ b @ w2 @ t @ w3 @ p @ w4) = Some (py_lower b, p)"
proof -
  let ?x = "n @ w1 @ b @ w2 @ t @ w3 @ p"
  have ne: "n \<noteq> []" "p \<noteq> []" using assms(2,9) by (auto simp: token_def)
  have x: "?x \<noteq> []" using ne by simp
  have h: "hd ?x = hd n" using ne by simp
  have l: "last ?x = last p" using ne by simp
  have s: "py_strip (w0 @ ?x @ w4) = ?x"
    using strip_blanks[OF assms(1,10) x] h l token_ends(2)[OF assms(2)] token_ends(3)[OF assms(9)]
    by simp
  obtain c cs where n: "n = c # cs" using ne by (cases n) auto
  have d: "py_isdigit c" using assms(3) n by simp
  have sp: "py_split ?x = [n, b, t, p]"
    by (rule split_row[OF assms(2,4,5,6,7,8,9)])
  have "new_switch_row (w0 @ ?x @ w4) = Some (py_lower b, p)"
    unfolding new_switch_row_def s using sp d n by (simp add: Let_def)
  then show ?thesis by simp
qed

subsection \<open>C2: the address as the join key\<close>

text \<open>
  Claim C2 says that dotted and colon-separated forms of one address, in any letter case,
  are brought to one form before they are stored or compared. The deployment script only
  puts the address in lower case, on both sides: a legacy record written with colons does
  not find the row the new switch prints with dots. The profile script does rewrite dots
  into colons, but it accepts dotted rows only, so a colon-separated row is not stored at
  all.
\<close>

theorem C2_counterexample:
  "same_hardware_address ''00:50:79:66:68:02'' ''0050.7966.6802'' \<and>
   mac_entry ''1100,00:50:79:66:68:02,Gi0/1,DATA'' =
     Some \<lparr>vlan = ''1100'', mac = ''00:50:79:66:68:02'', interface = ''Gi0/1'',
            role = ''DATA''\<rparr> \<and>
   parse_new_switch_mac_table ''   1    0050.7966.6802    DYNAMIC     Gi0/2''
     ''0050.7966.6802'' = Some ''Gi0/2'' \<and>
   parse_new_switch_mac_table ''   1    0050.7966.6802    DYNAMIC     Gi0/2''
     ''00:50:79:66:68:02'' = None \<and>
   profile_row ''   1    00:50:79:66:68:02    DYNAMIC     Gi0/2'' = None"
  by code_simp

text \<open>
  Claim C2 as amended: letter case is the only difference the join ignores. Take a legacy
  line of four comma-separated fields with the address field \<open>a\<close>, and a MAC table of
  the new switch whose last row for its address has the columns \<open>n b t p\<close> (the first
  starting with a digit), separated by whitespace. When \<open>a\<close>, stripped, and \<open>b\<close> are
  equal in lower case, the record parsed from the legacy line has the key \<open>b\<close> in lower
  case, and looking it up in the parsed table gives the port \<open>p\<close>.
\<close>

theorem C2_join_up_to_case:
  assumes "CHR '','' \<notin> set v" "CHR '','' \<notin> set a" "CHR '','' \<notin> set i" "CHR '','' \<notin> set r"
    and "blank w0" "token n" "py_isdigit (hd n)" "gap w1" "token b" "gap w2" "token t"
    "gap w3" "token p" "blank w4"
    and "py_splitlines output = pre @ (w0 @ n @ w1 @ b @ w2 @ t @ w3 @ p @ w4) # post"
    and "\<forall>l \<in> set post. \<forall>q. new_switch_row l \<noteq> Some (py_lower b, q)"
    and "py_lower (py_strip a) = py_lower b"
  shows "\<exists>e. mac_entry (v @ CHR '','' # a @ CHR '','' # i @ CHR '','' # r) = Some e \<and>
             mac e = py_lower b \<and>
             parse_new_switch_mac_table output (mac e) = Some p"
proof -
  let ?e = "\<lparr>vlan = py_strip v, mac = py_lower (py_strip a), interface = py_strip i,
             role = py_strip r\<rparr>"
  have m: "mac_entry (v @ CHR '','' # a @ CHR '','' # i @ CHR '','' # r) = Some ?e"
    unfolding mac_entry_def split_on_four[OF assms(1-4)] by (simp add: Let_def)
  have row: "new_switch_row (w0 @ n @ w1 @ b @ w2 @ t @ w3 @ p @ w4) = Some (py_lower b, p)"
    by (rule new_switch_row_shape[OF assms(5-14)])
  have "new_switch_loop (pre @ (w0 @ n @ w1 @ b @ w2 @ t @ w3 @ p @ w4) # post) Map.empty
          (py_lower b) = Some p"
    by (rule new_switch_loop_last[OF row assms(16)])
  then have t: "parse_new_switch_mac_table output (py_lower b) = Some p"
    unfolding parse_new_switch_mac_table_def assms(15) .
  have k: "mac ?e = py_lower b" using assms(17) by simp
  have t': "parse_new_switch_mac_table output (mac ?e) = Some p" using t k by simp
  show ?thesis
    by (intro exI[where x = ?e] conjI) (rule m, rule k, rule t')
qed

theorem C2_join_up_to_case_witness:
  "py_lower (py_strip ''0050.7966.68AB'') = py_lower ''0050.7966.68ab'' \<and>
   py_splitlines ''   1    0050.7966.68ab    DYNAMIC     Gi0/2'' =
     [] @ (''   '' @ ''1'' @ ''    '' @ ''0050.7966.68ab'' @ ''    '' @ ''DYNAMIC'' @
           ''     '' @ ''Gi0/2'' @ []) # [] \<and>
   mac_entry ''1100,0050.7966.68AB,Gi0/1,DATA'' =
     Some \<lparr>vlan = ''1100'', mac = ''0050.7966.68ab'', interface = ''Gi0/1'',
            role = ''DATA''\<rparr> \<and>
   parse_new_switch_mac_table ''   1    0050.7966.68ab    DYNAMIC     Gi0/2''
     ''0050.7966.68ab'' = Some ''Gi0/2''"
proof -
  let ?out = "''   1    0050.7966.68ab    DYNAMIC     Gi0/2''"
  have c: "CHR '','' \<notin> set ''1100''" "CHR '','' \<notin> set ''0050.7966.68AB''"
    "CHR '','' \<notin> set ''Gi0/1''" "CHR '','' \<notin> set ''DATA''" by simp_all
  have w: "blank ''   ''" "gap ''    ''" "gap ''     ''" "blank []"
    by (simp_all add: blank_def gap_def py_isspace_def)
  have t: "token ''1''" "token ''0050.7966.68ab''" "token ''DYNAMIC''" "token ''Gi0/2''"
    by (simp_all add: token_def py_isspace_def)
  have d: "py_isdigit (hd ''1'')" by (simp add: py_isdigit_def)
  have s: "py_splitlines ?out =
     [] @ (''   '' @ ''1'' @ ''    '' @ ''0050.7966.68ab'' @ ''    '' @ ''DYNAMIC'' @
           ''     '' @ ''Gi0/2'' @ []) # []"
    by code_simp
  have n: "\<forall>l \<in> set []. \<forall>q. new_switch_row l \<noteq> Some (py_lower ''0050.7966.68ab'', q)"
    by simp
  have l: "py_lower (py_strip ''0050.7966.68AB'') = py_lower ''0050.7966.68ab''"
    by code_simp
  have lb: "py_lower ''0050.7966.68ab'' = ''0050.7966.68ab''" by code_simp
  have me: "mac_entry ''1100,0050.7966.68AB,Gi0/1,DATA'' =
     Some \<lparr>vlan = ''1100'', mac = ''0050.7966.68ab'', interface = ''Gi0/1'',
            role = ''DATA''\<rparr>"
    by code_simp
  from C2_join_up_to_case[OF c w(1) t(1) d w(2) t(2) w(2) t(3) w(3) t(4) w(4) s n l]
  obtain e where e:
    "mac_entry (''1100'' @ CHR '','' # ''0050.7966.68AB'' @ CHR '','' # ''Gi0/1'' @
                CHR '','' # ''DATA'') = Some e \<and>
     mac e = py_lower ''0050.7966.68ab'' \<and>
     parse_new_switch_mac_table ?out (mac e) = Some ''Gi0/2''" ..
  from e have a: "mac e = py_lower ''0050.7966.68ab''" by (elim conjE)
  from e have b: "parse_new_switch_mac_table ?out (mac e) = Some ''Gi0/2''" by (elim conjE)
  have "parse_new_switch_mac_table ?out ''0050.7966.68ab'' = Some ''Gi0/2''"
    using b unfolding a lb .
  then show ?thesis using l s me by (intro conjI)
qed

section \<open>Lemmas about the configuration blocks\<close>
















section \<open>The claims about the configuration blocks\<close>

subsection \<open>C9: the lines of an interface block\<close>




end
